theory Spec2Isabelle
  imports Complex_Main "HOL-Library.AList"
begin

section \<open>JavaScript values used by the services\<close>

text \<open>
  A JavaScript number is an IEEE 754 double: a real number on the binary64 grid, or one of
  the three non-finite values. Every arithmetic operation computes the exact result and
  rounds it to the nearest double, ties to even; a result that rounds beyond the largest
  double is an infinity. The two zeros are not distinguished. Strings are lists of code
  units below 256.
\<close>

datatype jsnum = Num real | PosInf | NegInf | NaN

definition inf_of :: "real \<Rightarrow> jsnum" where
  "inf_of s = (if s = 0 then NaN else if 0 < s then PosInf else NegInf)"

definition pow2 :: "int \<Rightarrow> real" where
  "pow2 e = (if 0 \<le> e then 2 ^ nat e else 1 / 2 ^ nat (- e))"

text \<open>
  The binade of \<open>x\<close>: the \<open>e\<close> with \<open>2^e \<le> |x| < 2^(e+1)\<close>, not below the exponent of
  the smallest normal double, so that the subnormal numbers share the spacing \<open>2^(-1074)\<close>.
\<close>

definition expo :: "real \<Rightarrow> int" where
  "expo x = max \<lfloor>log 2 \<bar>x\<bar>\<rfloor> (- 1022)"

text \<open>The nearest integer, a tie going to the even one.\<close>

definition rne :: "real \<Rightarrow> int" where
  "rne y = (let f = \<lfloor>y\<rfloor>
            in if y - of_int f < 1 / 2 then f
               else if 1 / 2 < y - of_int f then f + 1
               else if even f then f else f + 1)"

text \<open>
  Rounding to 53 significant bits: the nearest multiple of \<open>2^(e - 52)\<close> in the binade
  \<open>e\<close> of \<open>x\<close>.
\<close>

definition fl :: "real \<Rightarrow> real" where
  "fl x = (if x = 0 then 0
           else of_int (rne (x / pow2 (expo x - 52))) * pow2 (expo x - 52))"

text \<open>The double that an exact result \<open>x\<close> becomes; a numeric literal is read the same way.\<close>

definition dbl :: "real \<Rightarrow> jsnum" where
  "dbl x = (if pow2 1024 \<le> \<bar>fl x\<bar> then inf_of x else Num (fl x))"

fun js_add :: "jsnum \<Rightarrow> jsnum \<Rightarrow> jsnum" where
  "js_add (Num x) (Num y) = dbl (x + y)"
| "js_add NaN _ = NaN"
| "js_add _ NaN = NaN"
| "js_add PosInf NegInf = NaN"
| "js_add NegInf PosInf = NaN"
| "js_add PosInf _ = PosInf"
| "js_add NegInf _ = NegInf"
| "js_add (Num x) PosInf = PosInf"
| "js_add (Num x) NegInf = NegInf"

fun js_sub :: "jsnum \<Rightarrow> jsnum \<Rightarrow> jsnum" where
  "js_sub (Num x) (Num y) = dbl (x - y)"
| "js_sub NaN _ = NaN"
| "js_sub _ NaN = NaN"
| "js_sub PosInf PosInf = NaN"
| "js_sub NegInf NegInf = NaN"
| "js_sub PosInf _ = PosInf"
| "js_sub NegInf _ = NegInf"
| "js_sub (Num x) PosInf = NegInf"
| "js_sub (Num x) NegInf = PosInf"

fun js_mul :: "jsnum \<Rightarrow> jsnum \<Rightarrow> jsnum" where
  "js_mul (Num x) (Num y) = dbl (x * y)"
| "js_mul NaN _ = NaN"
| "js_mul _ NaN = NaN"
| "js_mul (Num x) PosInf = inf_of x"
| "js_mul (Num x) NegInf = inf_of (- x)"
| "js_mul PosInf (Num y) = inf_of y"
| "js_mul NegInf (Num y) = inf_of (- y)"
| "js_mul PosInf PosInf = PosInf"
| "js_mul NegInf NegInf = PosInf"
| "js_mul PosInf NegInf = NegInf"
| "js_mul NegInf PosInf = NegInf"

text \<open>\<open>a / b\<close>, a zero divisor being the positive zero.\<close>

fun js_div :: "jsnum \<Rightarrow> jsnum \<Rightarrow> jsnum" where
  "js_div (Num x) (Num y) = (if y = 0 then inf_of x else dbl (x / y))"
| "js_div NaN _ = NaN"
| "js_div _ NaN = NaN"
| "js_div (Num x) _ = Num 0"
| "js_div PosInf (Num y) = (if 0 \<le> y then PosInf else NegInf)"
| "js_div NegInf (Num y) = (if 0 \<le> y then NegInf else PosInf)"
| "js_div _ _ = NaN"

text \<open>\<open>Math.sqrt\<close>, taken as correctly rounded.\<close>

fun js_sqrt :: "jsnum \<Rightarrow> jsnum" where
  "js_sqrt (Num x) = (if x < 0 then NaN else dbl (sqrt x))"
| "js_sqrt PosInf = PosInf"
| "js_sqrt NegInf = NaN"
| "js_sqrt NaN = NaN"

text \<open>\<open>a >= b\<close> and \<open>a > b\<close>: false as soon as an operand is \<open>NaN\<close>.\<close>

fun js_ge :: "jsnum \<Rightarrow> jsnum \<Rightarrow> bool" where
  "js_ge NaN _ = False"
| "js_ge _ NaN = False"
| "js_ge (Num x) (Num y) = (y \<le> x)"
| "js_ge PosInf _ = True"
| "js_ge _ NegInf = True"
| "js_ge (Num x) PosInf = False"
| "js_ge NegInf _ = False"

definition js_gt :: "jsnum \<Rightarrow> jsnum \<Rightarrow> bool" where
  "js_gt a b = (js_ge a b \<and> \<not> js_ge b a)"

text \<open>\<open>Math.round\<close>: the nearest integer, halves going up; the result is exact.\<close>

fun js_round :: "jsnum \<Rightarrow> jsnum" where
  "js_round (Num x) = Num (of_int \<lfloor>x + 1 / 2\<rfloor>)"
| "js_round v = v"

datatype jserror = Error string | TypeError

text \<open>The characters matched by \<open>\s\<close> and removed by \<open>trim()\<close>.\<close>

definition isSpace :: "char \<Rightarrow> bool" where
  "isSpace c = (of_char c \<in> {9, 10, 11, 12, 13, 32, 160 :: nat})"

definition trim :: "string \<Rightarrow> string" where
  "trim s = rev (dropWhile isSpace (rev (dropWhile isSpace s)))"

text \<open>
  \<open>s.split(/[...]+/)\<close> for a character class \<open>P\<close>: the pieces between maximal runs of
  matching characters, empty pieces at the two ends included.
\<close>

function splitOn :: "(char \<Rightarrow> bool) \<Rightarrow> string \<Rightarrow> string list" where
  "splitOn P [] = [[]]"
| "splitOn P (c # cs) =
     (if P c then [] # splitOn P (dropWhile P cs)
      else (case splitOn P cs of [] \<Rightarrow> [[c]] | w # ws \<Rightarrow> (c # w) # ws))"
  by pat_completeness auto
termination
  by (relation "measure (\<lambda>(P, s). length s)") (auto simp: length_dropWhile_le less_Suc_eq_le)

section \<open>vectorService: cosine similarity\<close>

text \<open>
  The vectors hold doubles. Each product and each sum of the loop is rounded, and the
  accumulators may become infinite.
\<close>

fun cosine_loop :: "real list \<Rightarrow> real list \<Rightarrow> jsnum \<times> jsnum \<times> jsnum
                      \<Rightarrow> jsnum \<times> jsnum \<times> jsnum" where
  "cosine_loop (a # as) (b # bs) (dotProduct, normA, normB) =
     cosine_loop as bs (js_add dotProduct (js_mul (Num a) (Num b)),
                        js_add normA (js_mul (Num a) (Num a)),
                        js_add normB (js_mul (Num b) (Num b)))"
| "cosine_loop _ _ acc = acc"

definition cosineSimilarity :: "real list \<Rightarrow> real list \<Rightarrow> jsnum" where
  "cosineSimilarity vecA vecB =
     (if length vecA \<noteq> length vecB then Num 0
      else (case cosine_loop vecA vecB (Num 0, Num 0, Num 0) of
              (dotProduct, normA, normB) \<Rightarrow>
                js_div dotProduct (js_mul (js_sqrt normA) (js_sqrt normB))))"

section \<open>documentProcessor: chunking\<close>

record chunk =
  content :: string
  start :: int
  end' :: int
  length' :: nat
  sentences :: nat

definition getOverlapText :: "string \<Rightarrow> nat \<Rightarrow> string" where
  "getOverlapText text overlapSize =
     (if length text \<le> overlapSize then text
      else
        let overlapText = (if overlapSize = 0 then text
                           else drop (length text - overlapSize) text);
            firstSpace = length (takeWhile (\<lambda>c. c \<noteq> CHR '' '') overlapText)
        in if firstSpace < length overlapText \<and> 0 < firstSpace
           then drop (firstSpace + 1) overlapText
           else overlapText)"

definition countSentences :: "string \<Rightarrow> nat" where
  "countSentences s =
     length (filter (\<lambda>p. 0 < length (trim p))
               (splitOn (\<lambda>c. c \<in> {CHR ''.'', CHR ''!'', CHR ''?''}) s))"

definition closeChunk :: "string \<Rightarrow> int \<Rightarrow> chunk" where
  "closeChunk currentChunk chunkStart =
     \<lparr>content = trim currentChunk,
      start = chunkStart,
      end' = chunkStart + int (length currentChunk),
      length' = length currentChunk,
      sentences = countSentences currentChunk\<rparr>"

text \<open>One iteration of the \<open>for\<close> loop of \<open>chunkText\<close>, on the loop's three variables.\<close>

definition chunk_step :: "nat \<Rightarrow> nat \<Rightarrow> chunk list \<times> string \<times> int \<Rightarrow> string
                            \<Rightarrow> chunk list \<times> string \<times> int" where
  "chunk_step chunkSize overlap st sentence =
     (case st of (chunks, currentChunk, chunkStart) \<Rightarrow>
        if chunkSize < length currentChunk + length sentence \<and> 0 < length currentChunk then
          let chunks1 = chunks @ [closeChunk currentChunk chunkStart];
              overlapText = getOverlapText currentChunk overlap;
              currentChunk1 = overlapText @ sentence;
              chunkStart1 = chunkStart + int (length currentChunk1)
                              - int (length overlapText) - int (length sentence)
          in (chunks1, currentChunk1, chunkStart1)
        else (chunks, currentChunk @ sentence, chunkStart))"

fun chunk_loop :: "nat \<Rightarrow> nat \<Rightarrow> string list \<Rightarrow> chunk list \<times> string \<times> int
                     \<Rightarrow> chunk list \<times> string \<times> int" where
  "chunk_loop chunkSize overlap [] st = st"
| "chunk_loop chunkSize overlap (sentence # rest) st =
     chunk_loop chunkSize overlap rest (chunk_step chunkSize overlap st sentence)"

text \<open>
  \<open>splitIntoSentences\<close> delegates to the sentence tokenizer of the \<open>natural\<close> package,
  which is not part of the repository: it is the parameter \<open>tokenize\<close>.
\<close>

definition chunkText :: "(string \<Rightarrow> string list) \<Rightarrow> string \<Rightarrow> nat \<Rightarrow> nat \<Rightarrow> chunk list" where
  "chunkText tokenize text chunkSize overlap =
     (case chunk_loop chunkSize overlap (tokenize text) ([], [], 0) of
        (chunks, currentChunk, chunkStart) \<Rightarrow>
          if 0 < length (trim currentChunk)
          then chunks @ [closeChunk currentChunk chunkStart]
          else chunks)"

section \<open>aiService: credentials and the embedding call\<close>

text \<open>
  The remote API is outside the repository. A request either resolves with the payload the
  caller reads (\<open>Resolved\<close>), resolves without it (\<open>Unusable\<close>: the caller throws inside
  its own \<open>try\<close>), or is rejected; \<open>Rejected s\<close> carries \<open>error.response?.status\<close>, absent
  when no response came back. The remote answers a request from its number in the sequence
  of requests sent, the key in its header and its text, so that any sequence of answers can
  be described.
\<close>

datatype 'a reply = Resolved 'a | Unusable | Rejected "nat option"

datatype endpoint = EmbedContent | GenerateContent

record remote =
  embedContent :: "nat \<Rightarrow> string option \<Rightarrow> string \<Rightarrow> real list reply"
  generateContent :: "nat \<Rightarrow> string option \<Rightarrow> string \<Rightarrow> string reply"

text \<open>
  The service object: its key list and rotation pointer, and the log of the requests sent
  so far (endpoint and key), which the model adds to speak about attempts. The pointer is
  \<open>None\<close> when it is \<open>NaN\<close>, the value of \<open>(i + 1) % 0\<close>.
\<close>

record aiService =
  geminiApiKeys :: "string list"
  currentKeyIndex :: "nat option"
  requests :: "(endpoint \<times> string option) list"

definition getCurrentApiKey :: "aiService \<Rightarrow> string option" where
  "getCurrentApiKey svc =
     (case currentKeyIndex svc of
        None \<Rightarrow> None
      | Some i \<Rightarrow> if i < length (geminiApiKeys svc) then Some (geminiApiKeys svc ! i) else None)"

definition switchToNextKey :: "aiService \<Rightarrow> aiService" where
  "switchToNextKey svc =
     svc\<lparr>currentKeyIndex :=
           (case currentKeyIndex svc of
              None \<Rightarrow> None
            | Some i \<Rightarrow> if length (geminiApiKeys svc) = 0 then None
                        else Some ((i + 1) mod length (geminiApiKeys svc)))\<rparr>"

definition sent :: "endpoint \<Rightarrow> aiService \<Rightarrow> aiService" where
  "sent ep svc = svc\<lparr>requests := requests svc @ [(ep, getCurrentApiKey svc)]\<rparr>"

function generateEmbeddings ::
  "remote \<Rightarrow> aiService \<Rightarrow> string \<Rightarrow> nat \<Rightarrow> (jserror + real list) \<times> aiService" where
  "generateEmbeddings api svc text retryCount =
     (case embedContent api (length (requests svc)) (getCurrentApiKey svc) text of
        Resolved values \<Rightarrow> (Inr values, sent EmbedContent svc)
      | Unusable \<Rightarrow> (Inl (Error ''Failed to generate embeddings''), sent EmbedContent svc)
      | Rejected status \<Rightarrow>
          if status = Some 429 \<and> int retryCount < int (length (geminiApiKeys svc)) - 1
          then generateEmbeddings api (switchToNextKey (sent EmbedContent svc)) text (retryCount + 1)
          else (Inl (Error ''Failed to generate embeddings''), sent EmbedContent svc))"
  by pat_completeness auto
termination
  by (relation "measure (\<lambda>(api, svc, text, retryCount). length (geminiApiKeys svc) - retryCount)")
     (auto simp: switchToNextKey_def sent_def)

function generateText ::
  "remote \<Rightarrow> aiService \<Rightarrow> string \<Rightarrow> nat \<Rightarrow> (jserror + string) \<times> aiService" where
  "generateText api svc prompt retryCount =
     (case generateContent api (length (requests svc)) (getCurrentApiKey svc) prompt of
        Resolved answer \<Rightarrow> (Inr answer, sent GenerateContent svc)
      | Unusable \<Rightarrow> (Inl (Error ''Failed to generate text''), sent GenerateContent svc)
      | Rejected status \<Rightarrow>
          if status = Some 429 \<and> int retryCount < int (length (geminiApiKeys svc)) - 1
          then generateText api (switchToNextKey (sent GenerateContent svc)) prompt (retryCount + 1)
          else (Inl (Error ''Failed to generate text''), sent GenerateContent svc))"
  by pat_completeness auto
termination
  by (relation "measure (\<lambda>(api, svc, prompt, retryCount). length (geminiApiKeys svc) - retryCount)")
     (auto simp: switchToNextKey_def sent_def)

declare generateEmbeddings.simps [simp del] generateText.simps [simp del]

section \<open>documentProcessor: text extraction\<close>

text \<open>
  The parsers (\<open>fs.readFile\<close>, \<open>pdf-parse\<close>, \<open>mammoth\<close>, \<open>sharp\<close>, \<open>Tesseract\<close>) are
  outside the repository. Each is a field of the environment: the text it yields for a
  path, or \<open>None\<close> when it throws; an absent \<open>text\<close> property is the empty string.
\<close>

record parsers =
  readPdf :: "string \<Rightarrow> string option"
  readTxt :: "string \<Rightarrow> string option"
  readDocx :: "string \<Rightarrow> string option"
  sharpToFile :: "string \<Rightarrow> bool"
  recognize :: "string \<Rightarrow> string option"

text \<open>
  The body shared by the four extractors: the parser's text, trimmed, when it is not
  blank; every failure inside the \<open>try\<close>, the blank-text error included, is replaced
  in the \<open>catch\<close> by the extractor's own message.
\<close>

definition extractWith :: "string option \<Rightarrow> string \<Rightarrow> jserror + string" where
  "extractWith parsed failure =
     (case parsed of
        None \<Rightarrow> Inl (Error failure)
      | Some t \<Rightarrow> if length t = 0 \<or> length (trim t) = 0 then Inl (Error failure)
                  else Inr (trim t))"

definition extractFromPDF :: "parsers \<Rightarrow> string \<Rightarrow> jserror + string" where
  "extractFromPDF env filePath = extractWith (readPdf env filePath) ''Failed to extract text from PDF''"

definition extractFromTXT :: "parsers \<Rightarrow> string \<Rightarrow> jserror + string" where
  "extractFromTXT env filePath =
     extractWith (readTxt env filePath) ''Failed to extract text from TXT file''"

definition extractFromDOCX :: "parsers \<Rightarrow> string \<Rightarrow> jserror + string" where
  "extractFromDOCX env filePath =
     extractWith (readDocx env filePath) ''Failed to extract text from DOCX file''"

text \<open>\<open>filePath.replace(/\\.[^/.]+$/, '_processed.png')\<close>: the last extension, if there is one.\<close>

definition processedPath :: "string \<Rightarrow> string" where
  "processedPath filePath =
     (let ext = rev (takeWhile (\<lambda>c. c \<noteq> CHR ''.'') (rev filePath))
      in if length ext < length filePath \<and> 0 < length ext \<and> CHR ''/'' \<notin> set ext
         then take (length filePath - length ext - 1) filePath @ ''_processed.png''
         else filePath)"

definition preprocessImageForOCR :: "parsers \<Rightarrow> string \<Rightarrow> string" where
  "preprocessImageForOCR env filePath =
     (if sharpToFile env filePath then processedPath filePath else filePath)"

definition extractFromImage :: "parsers \<Rightarrow> string \<Rightarrow> jserror + string" where
  "extractFromImage env filePath =
     extractWith (recognize env (preprocessImageForOCR env filePath))
       ''Failed to extract text from image''"

definition unsupportedFileType :: "string \<Rightarrow> jserror" where
  "unsupportedFileType fileType = Error (''Unsupported file type: '' @ fileType)"

definition failedToExtract :: "string \<Rightarrow> jserror" where
  "failedToExtract fileType = Error (''Failed to extract text from '' @ fileType @ '' file'')"

definition extractText :: "parsers \<Rightarrow> string \<Rightarrow> string \<Rightarrow> jserror + string" where
  "extractText env filePath fileType =
     (case (if fileType = ''pdf'' then extractFromPDF env filePath
            else if fileType = ''txt'' then extractFromTXT env filePath
            else if fileType = ''docx'' then extractFromDOCX env filePath
            else if fileType = ''image'' then extractFromImage env filePath
            else Inl (unsupportedFileType fileType)) of
        Inr t \<Rightarrow> Inr t
      | Inl error \<Rightarrow> Inl (failedToExtract fileType))"

definition supportedTypes :: "string set" where
  "supportedTypes = {''pdf'', ''txt'', ''docx'', ''image''}"

section \<open>documentProcessor: readability\<close>

text \<open>\<open>toLowerCase\<close> on code units below 256.\<close>

definition toLowerChar :: "char \<Rightarrow> char" where
  "toLowerChar c =
     (let n = (of_char c :: nat)
      in if (65 \<le> n \<and> n \<le> 90) \<or> (192 \<le> n \<and> n \<le> 222 \<and> n \<noteq> 215)
         then char_of (n + 32) else c)"

definition toLowerCase :: "string \<Rightarrow> string" where
  "toLowerCase s = map toLowerChar s"

fun syllable_loop :: "string \<Rightarrow> nat \<times> bool \<Rightarrow> nat \<times> bool" where
  "syllable_loop [] st = st"
| "syllable_loop (c # cs) (syllables, previousWasVowel) =
     (let isVowel = (c \<in> set ''aeiouy'')
      in syllable_loop cs
           (if isVowel \<and> \<not> previousWasVowel then syllables + 1 else syllables, isVowel))"

definition countSyllables :: "string \<Rightarrow> nat" where
  "countSyllables word0 =
     (let word = toLowerCase word0
      in if length word \<le> 3 then 1
         else
           let syllables = fst (syllable_loop word (0, False));
               syllables1 = (if word \<noteq> [] \<and> last word = CHR ''e'' \<and> 1 < syllables
                             then syllables - 1 else syllables)
           in max 1 syllables1)"

record readability =
  score :: jsnum
  level :: string
  avgWordsPerSentence :: jsnum
  avgSyllablesPerWord :: jsnum

definition splitWords :: "string \<Rightarrow> string list" where
  "splitWords text = filter (\<lambda>word. 0 < length word) (splitOn isSpace text)"

definition fleschScore :: "jsnum \<Rightarrow> jsnum \<Rightarrow> jsnum" where
  "fleschScore avgWords avgSyllables =
     js_sub (js_sub (dbl 206.835) (js_mul (dbl 1.015) avgWords)) (js_mul (dbl 84.6) avgSyllables)"

definition fleschLevel :: "jsnum \<Rightarrow> string" where
  "fleschLevel fs =
     (if js_ge fs (Num 90) then ''Very Easy''
      else if js_ge fs (Num 80) then ''Easy''
      else if js_ge fs (Num 70) then ''Fairly Easy''
      else if js_ge fs (Num 60) then ''Standard''
      else if js_ge fs (Num 50) then ''Fairly Difficult''
      else if js_ge fs (Num 30) then ''Difficult''
      else ''Very Difficult'')"

text \<open>
  With a tokenizer that returns, nothing in the body of \<open>calculateReadability\<close> throws, so
  the default record of its \<open>catch\<close> is never produced and is not part of the model.
\<close>

definition calculateReadability :: "(string \<Rightarrow> string list) \<Rightarrow> string \<Rightarrow> readability" where
  "calculateReadability tokenize text =
     (let sentences = tokenize text;
          words = splitWords text;
          syllables = foldl (\<lambda>acc word. acc + countSyllables word) 0 words;
          avgWords = js_div (Num (real (length words))) (Num (real (length sentences)));
          avgSyllables = js_div (Num (real syllables)) (Num (real (length words)));
          fs = fleschScore avgWords avgSyllables
      in \<lparr>score = js_round fs,
          level = fleschLevel fs,
          avgWordsPerSentence = js_round avgWords,
          avgSyllablesPerWord = js_div (js_round (js_mul avgSyllables (Num 100))) (Num 100)\<rparr>)"

text \<open>
  The specification's reading of the Flesch score and of its seven bands, on the counts of
  words, sentences and syllables, for comparison with the code: the formula on the real
  numbers, and the same formula evaluated in double arithmetic, each literal and each
  operation rounded.
\<close>

definition spec_flesch :: "nat \<Rightarrow> nat \<Rightarrow> nat \<Rightarrow> real" where
  "spec_flesch nwords nsentences nsyllables =
     206.835 - 1.015 * (real nwords / real nsentences) - 84.6 * (real nsyllables / real nwords)"

definition flesch_double :: "nat \<Rightarrow> nat \<Rightarrow> nat \<Rightarrow> real" where
  "flesch_double nwords nsentences nsyllables =
     fl (fl (fl 206.835 - fl (fl 1.015 * fl (real nwords / real nsentences)))
         - fl (fl 84.6 * fl (real nsyllables / real nwords)))"

definition spec_band :: "real \<Rightarrow> string" where
  "spec_band s =
     (if 90 \<le> s then ''Very Easy''
      else if 80 \<le> s then ''Easy''
      else if 70 \<le> s then ''Fairly Easy''
      else if 60 \<le> s then ''Standard''
      else if 50 \<le> s then ''Fairly Difficult''
      else if 30 \<le> s then ''Difficult''
      else ''Very Difficult'')"

section \<open>documentProcessor: analyzers\<close>

text \<open>
  What the analyzers take from outside the repository: the sentence tokenizer of
  \<open>natural\<close>; the outcome of the \<open>try\<close> block of \<open>extractKeywords\<close>, which runs the word
  tokenizer of \<open>natural\<close> and counts its tokens (\<open>None\<close> when it throws);
  \<open>JSON.parse\<close> followed by the mapping over the parsed array (\<open>None\<close> when either throws);
  and the clock.
\<close>

record library =
  sentenceTokenize :: "string \<Rightarrow> string list"
  keywordsBody :: "string \<Rightarrow> nat \<Rightarrow> (string \<times> nat) list option"
  parseKeywords :: "string \<Rightarrow> string list option"
  toISOString :: string

record keyword =
  word :: string
  count :: nat
  source :: "string option"

definition extractKeywords :: "library \<Rightarrow> string \<Rightarrow> nat \<Rightarrow> keyword list" where
  "extractKeywords lib text maxKeywords =
     (case keywordsBody lib text maxKeywords of
        Some counted \<Rightarrow> map (\<lambda>(w, n). \<lparr>word = w, count = n, source = None\<rparr>) counted
      | None \<Rightarrow> [])"

text \<open>\<open>sentences.slice(0, maxSentences).join(' ')\<close>.\<close>

fun joinSpace :: "string list \<Rightarrow> string" where
  "joinSpace [] = []"
| "joinSpace [x] = x"
| "joinSpace (x # y # ys) = x @ '' '' @ joinSpace (y # ys)"

definition generateSummary :: "library \<Rightarrow> string \<Rightarrow> nat \<Rightarrow> string" where
  "generateSummary lib text maxSentences =
     (let sentences = sentenceTokenize lib text
      in if length sentences \<le> maxSentences then text
         else joinSpace (take maxSentences sentences))"

text \<open>\<open>haystack.includes(needle)\<close>.\<close>

fun jsIncludes :: "string \<Rightarrow> string \<Rightarrow> bool" where
  "jsIncludes [] needle = (needle = [])"
| "jsIncludes (c # cs) needle = (take (length needle) (c # cs) = needle \<or> jsIncludes cs needle)"

definition subjectKeywords :: "(string \<times> string list) list" where
  "subjectKeywords =
     [(''mathematics'', [''math'', ''algebra'', ''calculus'', ''geometry'', ''equation'', ''formula'',
                         ''number'', ''solve'']),
      (''science'', [''science'', ''biology'', ''chemistry'', ''physics'', ''experiment'', ''research'',
                     ''theory'', ''hypothesis'']),
      (''history'', [''history'', ''historical'', ''ancient'', ''century'', ''war'', ''battle'', ''empire'',
                     ''civilization'']),
      (''literature'', [''literature'', ''novel'', ''poetry'', ''author'', ''character'', ''plot'', ''theme'',
                        ''writing'']),
      (''technology'', [''technology'', ''computer'', ''software'', ''programming'', ''digital'',
                        ''internet'', ''data'', ''system'']),
      (''business'', [''business'', ''management'', ''marketing'', ''finance'', ''economy'', ''company'',
                      ''strategy'', ''profit''])]"

text \<open>\<open>toUpperCase\<close> on the first letter of a table key, a lower-case ASCII letter.\<close>

definition capitalize :: "string \<Rightarrow> string" where
  "capitalize s = (case s of [] \<Rightarrow> [] | c # cs \<Rightarrow> char_of (of_char c - (32 :: nat)) # cs)"

fun subject_loop :: "string \<Rightarrow> (string \<times> string list) list \<Rightarrow> string \<times> nat \<Rightarrow> string \<times> nat" where
  "subject_loop textLower [] st = st"
| "subject_loop textLower ((subject, keywords) # rest) (bestMatch, maxScore) =
     (let score = foldl (\<lambda>acc keyword. acc + (if jsIncludes textLower keyword then 1 else 0)) 0 keywords
      in subject_loop textLower rest
           (if maxScore < score then (capitalize subject, score) else (bestMatch, maxScore)))"

definition extractSubject :: "string \<Rightarrow> string" where
  "extractSubject text = fst (subject_loop (toLowerCase text) subjectKeywords (''General'', 0))"

definition englishWords :: "string list" where
  "englishWords = [''the'', ''and'', ''or'', ''but'', ''in'', ''on'', ''at'', ''to'', ''for'', ''of'', ''with'',
     ''by'', ''is'', ''are'', ''was'', ''were'', ''be'', ''been'', ''have'', ''has'', ''had'', ''do'', ''does'',
     ''did'', ''will'', ''would'', ''could'', ''should'', ''may'', ''might'', ''must'', ''can'', ''this'',
     ''that'', ''these'', ''those'']"

definition detectLanguage :: "string \<Rightarrow> string" where
  "detectLanguage text =
     (let words = splitOn isSpace (toLowerCase text);
          englishCount = length (filter (\<lambda>w. w \<in> set englishWords) words)
      in if js_gt (Num (real englishCount)) (js_mul (Num (real (length words))) (dbl 0.1))
         then ''en'' else ''unknown'')"

text \<open>Decimal digits of a number, for the prompts.\<close>

function showNat :: "nat \<Rightarrow> string" where
  "showNat n = (if n < 10 then [char_of (48 + n)]
                else showNat (n div 10) @ [char_of (48 + n mod 10)])"
  by pat_completeness auto
termination
  by (relation "measure id") auto

declare showNat.simps [simp del]

definition newline :: char where
  "newline = CHR 0x0A"

text \<open>
  The three analyzers that ask the model first. Each catches the failure of
  \<open>generateText\<close> and substitutes the local analyzer, so none of them throws.
\<close>

definition extractKeywordsWithGemini ::
  "library \<Rightarrow> remote \<Rightarrow> aiService \<Rightarrow> string \<Rightarrow> nat \<Rightarrow> keyword list \<times> aiService" where
  "extractKeywordsWithGemini lib api svc text maxKeywords =
     (let prompt = ''Extract the top '' @ showNat maxKeywords
                   @ '' most important keywords from this text. Return only a JSON array of strings, no other text.''
                   @ [newline, newline] @ ''Text: '' @ take 2000 text
      in case generateText api svc prompt 0 of
           (Inr response, svc1) \<Rightarrow>
             (case parseKeywords lib response of
                Some ks \<Rightarrow> (map (\<lambda>k. \<lparr>word = k, count = 1, source = Some ''gemini''\<rparr>) ks, svc1)
              | None \<Rightarrow> (extractKeywords lib text maxKeywords, svc1))
         | (Inl error, svc1) \<Rightarrow> (extractKeywords lib text maxKeywords, svc1))"

definition generateSummaryWithGemini ::
  "library \<Rightarrow> remote \<Rightarrow> aiService \<Rightarrow> string \<Rightarrow> nat \<Rightarrow> string \<times> aiService" where
  "generateSummaryWithGemini lib api svc text maxSentences =
     (let prompt = ''Summarize this text in '' @ showNat maxSentences
                   @ '' sentences. Focus on the main points and key information.''
                   @ [newline, newline] @ ''Text: '' @ take 3000 text
      in case generateText api svc prompt 0 of
           (Inr summary, svc1) \<Rightarrow> (trim summary, svc1)
         | (Inl error, svc1) \<Rightarrow> (generateSummary lib text maxSentences, svc1))"

definition extractSubjectWithGemini ::
  "remote \<Rightarrow> aiService \<Rightarrow> string \<Rightarrow> string \<times> aiService" where
  "extractSubjectWithGemini api svc text =
     (let prompt = ''What is the main subject or topic of this text? Respond with only the subject name (e.g., ''
                   @ [CHR 0x22] @ ''Mathematics'' @ [CHR 0x22] @ '', '' @ [CHR 0x22] @ ''Science'' @ [CHR 0x22]
                   @ '', '' @ [CHR 0x22] @ ''History'' @ [CHR 0x22] @ '', '' @ [CHR 0x22] @ ''Technology''
                   @ [CHR 0x22] @ '', '' @ [CHR 0x22] @ ''Business'' @ [CHR 0x22] @ '', '' @ [CHR 0x22]
                   @ ''Literature'' @ [CHR 0x22] @ '').''
                   @ [newline, newline] @ ''Text: '' @ take 2000 text
      in case generateText api svc prompt 0 of
           (Inr subject, svc1) \<Rightarrow>
             (filter (\<lambda>c. c \<noteq> CHR 0x27 \<and> c \<noteq> CHR 0x22) (trim subject), svc1)
         | (Inl error, svc1) \<Rightarrow> (extractSubject text, svc1))"

section \<open>documentProcessor: the pipeline\<close>

record chunkMetadata =
  chunkIndex :: nat
  start_m :: int
  end_m :: int
  length_m :: nat
  sentences_m :: nat
  processingMethod :: string

record processedChunk =
  content_p :: string
  embedding :: "real list option"
  keywords_p :: "keyword list"
  summary :: string
  metadata :: chunkMetadata

record documentMetadata =
  wordCount :: nat
  chunkCount :: nat
  language :: string
  subject :: string
  keywords_d :: "keyword list"
  summary_d :: string
  readability_d :: readability
  processingTime :: string
  processingMethod_d :: string

record processed =
  extractedText :: string
  chunks :: "processedChunk list"
  metadata_d :: documentMetadata

definition pushChunk ::
  "nat \<Rightarrow> chunk \<Rightarrow> real list option \<Rightarrow> keyword list \<Rightarrow> string \<Rightarrow> processedChunk" where
  "pushChunk i c emb kws summ =
     \<lparr>content_p = content c,
      embedding = emb,
      keywords_p = kws,
      summary = summ,
      metadata = \<lparr>chunkIndex = i, start_m = start c, end_m = end' c, length_m = length' c,
                   sentences_m = sentences c,
                   processingMethod = (if emb \<noteq> None then ''gemini'' else ''free'')\<rparr>\<rparr>"

text \<open>
  The body of the loop over the chunks. Of the three calls in the inner \<open>try\<close> only
  \<open>generateEmbeddings\<close> can throw; the inner \<open>catch\<close> then runs the two local analyzers,
  which return, so the outer \<open>catch\<close> of the loop body is never entered and the chunk is
  always pushed.
\<close>

definition processChunk ::
  "library \<Rightarrow> remote \<Rightarrow> aiService \<Rightarrow> nat \<Rightarrow> chunk \<Rightarrow> processedChunk \<times> aiService" where
  "processChunk lib api svc i c =
     (case generateEmbeddings api svc (content c) 0 of
        (Inr values, svc1) \<Rightarrow>
          (case extractKeywordsWithGemini lib api svc1 (content c) 10 of
             (kws, svc2) \<Rightarrow>
               (case generateSummaryWithGemini lib api svc2 (content c) 3 of
                  (summ, svc3) \<Rightarrow> (pushChunk i c (Some values) kws summ, svc3)))
      | (Inl geminiError, svc1) \<Rightarrow>
          (pushChunk i c None (extractKeywords lib (content c) 10)
             (generateSummary lib (content c) 3), svc1))"

fun processChunks ::
  "library \<Rightarrow> remote \<Rightarrow> aiService \<Rightarrow> nat \<Rightarrow> chunk list \<Rightarrow> processedChunk list \<times> aiService" where
  "processChunks lib api svc i [] = ([], svc)"
| "processChunks lib api svc i (c # rest) =
     (case processChunk lib api svc i c of
        (pc, svc1) \<Rightarrow>
          (case processChunks lib api svc1 (i + 1) rest of
             (pcs, svc2) \<Rightarrow> (pc # pcs, svc2)))"

text \<open>
  \<open>processDocument\<close>. Its outer \<open>catch\<close> rethrows the error it caught, so the error of
  the model is the one thrown inside. \<open>chunkText\<close> is called with its default sizes.
\<close>

definition processDocument ::
  "parsers \<Rightarrow> library \<Rightarrow> remote \<Rightarrow> aiService \<Rightarrow> string \<Rightarrow> string \<Rightarrow> string
     \<Rightarrow> (jserror + processed) \<times> aiService" where
  "processDocument env lib api svc documentId filePath fileType =
     (case extractText env filePath fileType of
        Inl error \<Rightarrow> (Inl error, svc)
      | Inr text \<Rightarrow>
          if length text = 0 \<or> length (trim text) = 0
          then (Inl (Error ''No text content found in document''), svc)
          else
            (case processChunks lib api svc 0 (chunkText (sentenceTokenize lib) text 1000 200) of
               (processedChunks, svc1) \<Rightarrow>
            (case extractSubjectWithGemini api svc1 text of
               (subj, svc2) \<Rightarrow>
            (case extractKeywordsWithGemini lib api svc2 text 20 of
               (kws, svc3) \<Rightarrow>
            (case generateSummaryWithGemini lib api svc3 text 5 of
               (summ, svc4) \<Rightarrow>
                 (Inr \<lparr>extractedText = text,
                       chunks = processedChunks,
                       metadata_d =
                         \<lparr>wordCount = length (splitOn isSpace text),
                          chunkCount = length processedChunks,
                          language = detectLanguage text,
                          subject = subj,
                          keywords_d = kws,
                          summary_d = summ,
                          readability_d = calculateReadability (sentenceTokenize lib) text,
                          processingTime = toISOString lib,
                          processingMethod_d =
                            (if list_ex (\<lambda>c. processingMethod (metadata c) = ''gemini'')
                                  processedChunks
                             then ''gemini'' else ''free'')\<rparr>\<rparr>,
                  svc4))))))"

section \<open>vectorService: the in-process store\<close>

text \<open>
  The store in fallback mode is the \<open>Map\<close> from document id to the records stored for it,
  an association list in insertion order. The branches that call the external database
  client are not modelled.
\<close>

record storedMetadata =
  document_id :: string
  chunk_index :: nat
  chunk_metadata :: chunkMetadata

record storedChunk =
  content_s :: string
  embedding_s :: "real list option"
  metadata_s :: storedMetadata

type_synonym fallbackStorage = "(string \<times> storedChunk list) list"

definition storeChunksFallback ::
  "fallbackStorage \<Rightarrow> string \<Rightarrow> processedChunk list \<Rightarrow> fallbackStorage" where
  "storeChunksFallback store documentId cs =
     (let store1 = (if map_of store documentId = None then AList.update documentId [] store
                    else store);
          existingChunks = (case map_of store1 documentId of Some old \<Rightarrow> old | None \<Rightarrow> []);
          newChunks = map (\<lambda>(index, c).
                             \<lparr>content_s = content_p c,
                              embedding_s = embedding c,
                              metadata_s = \<lparr>document_id = documentId, chunk_index = index,
                                             chunk_metadata = metadata c\<rparr>\<rparr>)
                          (enumerate 0 cs)
      in AList.update documentId (existingChunks @ newChunks) store1)"

definition deleteDocumentChunks :: "fallbackStorage \<Rightarrow> string \<Rightarrow> fallbackStorage" where
  "deleteDocumentChunks store documentId = AList.delete documentId store"

record searchResult =
  content_r :: string
  score_r :: jsnum
  documentId_r :: string
  metadata_r :: storedMetadata

text \<open>
  The inner loop of the scan. \<open>cosineSimilarity\<close> first reads \<open>vecB.length\<close>, which throws
  a \<open>TypeError\<close> when the stored embedding is \<open>null\<close>.
\<close>

fun scoreChunks :: "real list \<Rightarrow> storedChunk list \<Rightarrow> jserror + searchResult list" where
  "scoreChunks queryEmbedding [] = Inr []"
| "scoreChunks queryEmbedding (c # rest) =
     (case embedding_s c of
        None \<Rightarrow> Inl TypeError
      | Some v \<Rightarrow>
          (case scoreChunks queryEmbedding rest of
             Inl e \<Rightarrow> Inl e
           | Inr results \<Rightarrow>
               Inr (\<lparr>content_r = content_s c,
                     score_r = cosineSimilarity queryEmbedding v,
                     documentId_r = document_id (metadata_s c),
                     metadata_r = metadata_s c\<rparr> # results)))"

text \<open>\<open>documentId && ...\<close>: \<open>null\<close> and the empty string are falsy.\<close>

definition truthy :: "string option \<Rightarrow> bool" where
  "truthy documentId = (case documentId of None \<Rightarrow> False | Some d \<Rightarrow> d \<noteq> [])"

fun scanStorage ::
  "real list \<Rightarrow> string option \<Rightarrow> fallbackStorage \<Rightarrow> jserror + searchResult list" where
  "scanStorage queryEmbedding documentId [] = Inr []"
| "scanStorage queryEmbedding documentId ((docId, cs) # rest) =
     (if truthy documentId \<and> Some docId \<noteq> documentId
      then scanStorage queryEmbedding documentId rest
      else (case scoreChunks queryEmbedding cs of
              Inl e \<Rightarrow> Inl e
            | Inr here \<Rightarrow>
                (case scanStorage queryEmbedding documentId rest of
                   Inl e \<Rightarrow> Inl e
                 | Inr results \<Rightarrow> Inr (here @ results))))"

text \<open>
  \<open>results.sort((a, b) => b.score - a.score)\<close>. The sort calls the comparator and takes a
  \<open>NaN\<close> result as \<open>0\<close>; \<open>a\<close> is placed after \<open>b\<close> when the result is positive. The
  sort is stable. Where the comparator is a consistent order, which it is when no score is
  \<open>NaN\<close>, the result is the one stable sorted arrangement, computed here by insertion.
  Where it is not, the language leaves the order to the implementation: the insertion
  order below is the engine's on two records and need not be on more.
\<close>

definition sortsAfter :: "searchResult \<Rightarrow> searchResult \<Rightarrow> bool" where
  "sortsAfter a b =
     (case js_sub (score_r b) (score_r a) of
        Num v \<Rightarrow> 0 < v
      | PosInf \<Rightarrow> True
      | NegInf \<Rightarrow> False
      | NaN \<Rightarrow> False)"

fun insertResult :: "searchResult \<Rightarrow> searchResult list \<Rightarrow> searchResult list" where
  "insertResult a [] = [a]"
| "insertResult a (b # bs) = (if sortsAfter a b then b # insertResult a bs else a # b # bs)"

definition sortResults :: "searchResult list \<Rightarrow> searchResult list" where
  "sortResults results = foldr insertResult results []"

text \<open>\<open>xs.slice(0, limit)\<close> for an integer \<open>limit\<close>; a negative one counts from the end.\<close>

definition slice0 :: "'a list \<Rightarrow> int \<Rightarrow> 'a list" where
  "slice0 xs limit =
     (if limit < 0 then take (nat (int (length xs) + limit)) xs else take (nat limit) xs)"

definition searchChunksFallback ::
  "remote \<Rightarrow> aiService \<Rightarrow> fallbackStorage \<Rightarrow> string \<Rightarrow> string option \<Rightarrow> int
     \<Rightarrow> (jserror + searchResult list) \<times> aiService" where
  "searchChunksFallback api svc store query documentId limit =
     (case generateEmbeddings api svc query 0 of
        (Inl e, svc1) \<Rightarrow> (Inl e, svc1)
      | (Inr queryEmbedding, svc1) \<Rightarrow>
          (case scanStorage queryEmbedding documentId store of
             Inl e \<Rightarrow> (Inl e, svc1)
           | Inr results \<Rightarrow> (Inr (slice0 (sortResults results) limit), svc1)))"

text \<open>
  \<open>searchSimilarChunks\<close> with \<open>useFallback\<close> set returns the promise of
  \<open>searchChunksFallback\<close> without awaiting it, so a rejection of that promise passes to
  the caller as it is and the \<open>catch\<close> of \<open>searchSimilarChunks\<close> is not entered.
\<close>

definition searchSimilarChunks ::
  "remote \<Rightarrow> aiService \<Rightarrow> fallbackStorage \<Rightarrow> string \<Rightarrow> string option \<Rightarrow> int
     \<Rightarrow> (jserror + searchResult list) \<times> aiService" where
  "searchSimilarChunks api svc store query documentId limit =
     searchChunksFallback api svc store query documentId limit"

text \<open>\<open>ordered by non-increasing similarity\<close>: each score is \<open>>=\<close> every later one.\<close>

definition nonIncreasing :: "jsnum list \<Rightarrow> bool" where
  "nonIncreasing scores = sorted_wrt js_ge scores"

text \<open>The store invariant kept by \<open>storeChunksFallback\<close>: a record sits under its own id.\<close>

definition storeConsistent :: "fallbackStorage \<Rightarrow> bool" where
  "storeConsistent store =
     list_all (\<lambda>(docId, cs). list_all (\<lambda>c. document_id (metadata_s c) = docId) cs) store"

text \<open>
  The invariant of the chunking loop used below: the running start offset is still \<open>0\<close>
  and every chunk closed so far satisfies \<open>P\<close>.
\<close>

definition chunks_ok :: "(chunk \<Rightarrow> bool) \<Rightarrow> chunk list \<times> string \<times> int \<Rightarrow> bool" where
  "chunks_ok P st = (case st of (emitted, currentChunk, chunkStart) \<Rightarrow>
                      chunkStart = 0 \<and> list_all P emitted)"

text \<open>An environment in which every parser throws, for the concrete evaluations below.\<close>

definition noParsers :: parsers where
  "noParsers = \<lparr>readPdf = (\<lambda>p. None), readTxt = (\<lambda>p. None), readDocx = (\<lambda>p. None),
                 sharpToFile = (\<lambda>p. False), recognize = (\<lambda>p. None)\<rparr>"

text \<open>
  The requests of one embedding call that starts at key \<open>i\<close> and makes \<open>m\<close> attempts:
  consecutive keys in rotation order, one request each.
\<close>

definition key_run :: "string list \<Rightarrow> nat \<Rightarrow> nat \<Rightarrow> (endpoint \<times> string option) list" where
  "key_run keys i m = map (\<lambda>k. (EmbedContent, Some (keys ! ((i + k) mod length keys)))) [0..<m]"

text \<open>
  Concrete services for the evaluations below: three keys with the pointer on the first; a
  remote that rate-limits every key but the third; a remote that answers every request
  with status 500.
\<close>

definition threeKeys :: aiService where
  "threeKeys = \<lparr>geminiApiKeys = [''key-1'', ''key-2'', ''key-3''], currentKeyIndex = Some 0,
                 requests = []\<rparr>"

definition throttled :: remote where
  "throttled = \<lparr>embedContent = (\<lambda>n key t. if key = Some ''key-3'' then Resolved [1, 0]
                                         else Rejected (Some 429)),
                 generateContent = (\<lambda>n key t. Rejected (Some 429))\<rparr>"

definition down :: remote where
  "down = \<lparr>embedContent = (\<lambda>n key t. Rejected (Some 500)),
            generateContent = (\<lambda>n key t. Rejected (Some 500))\<rparr>"

text \<open>
  Concrete inputs for the evaluations below: a plain-text file of two sentences with its
  tokenization; a store in which two documents hold the same content text and a third id
  has an empty entry; and a store with an all-zero embedding.
\<close>

definition txtParsers :: parsers where
  "txtParsers = noParsers\<lparr>readTxt := (\<lambda>p. Some ''Hello world. Bye now.'')\<rparr>"

definition sampleLibrary :: library where
  "sampleLibrary = \<lparr>sentenceTokenize = (\<lambda>t. [''Hello world.'', ''Bye now.'']),
                     keywordsBody = (\<lambda>t n. Some []),
                     parseKeywords = (\<lambda>r. None),
                     toISOString = ''2025-01-01T00:00:00.000Z''\<rparr>"

definition plainMetadata :: chunkMetadata where
  "plainMetadata = \<lparr>chunkIndex = 0, start_m = 0, end_m = 5, length_m = 5, sentences_m = 1,
                     processingMethod = ''gemini''\<rparr>"

definition storedAt :: "string \<Rightarrow> nat \<Rightarrow> real list \<Rightarrow> storedChunk" where
  "storedAt docId i v =
     \<lparr>content_s = ''same text'', embedding_s = Some v,
      metadata_s = \<lparr>document_id = docId, chunk_index = i, chunk_metadata = plainMetadata\<rparr>\<rparr>"

definition twoDocs :: fallbackStorage where
  "twoDocs = [(''doc-1'', [storedAt ''doc-1'' 0 [1, 0]]), (''doc-2'', [storedAt ''doc-2'' 0 [1, 0]]),
              (''doc-3'', [])]"

definition zeroVectorStore :: fallbackStorage where
  "zeroVectorStore = [(''doc-1'', [storedAt ''doc-1'' 0 [0, 0], storedAt ''doc-1'' 1 [1, 0]])]"

text \<open>The records held for a document id, whatever the number of its entries.\<close>

definition recordsOf :: "fallbackStorage \<Rightarrow> string \<Rightarrow> storedChunk list" where
  "recordsOf store documentId = concat (map snd (filter (\<lambda>p. fst p = documentId) store))"

text \<open>All scores are doubles.\<close>

definition doubleScores :: "searchResult list \<Rightarrow> bool" where
  "doubleScores rs = list_all (\<lambda>r. case score_r r of Num x \<Rightarrow> fl x = x | _ \<Rightarrow> False) rs"

section \<open>Properties of double arithmetic\<close>

lemma pow2_powr: "pow2 e = 2 powr (real_of_int e)"
  by (simp add: pow2_def powr_real_of_int inverse_eq_divide)

lemma pow2_pos [simp]: "0 < pow2 e"
  by (simp add: pow2_powr)

lemma pow2_nonneg [simp]: "0 \<le> pow2 e"
  using pow2_pos[of e] by linarith

lemma pow2_neq0 [simp]: "pow2 e \<noteq> 0"
  using pow2_pos[of e] by linarith

lemma pow2_mono: "a \<le> b \<Longrightarrow> pow2 a \<le> pow2 b"
  by (simp add: pow2_powr)

lemma pow2_add: "pow2 (a + b) = pow2 a * pow2 b"
  by (simp add: pow2_powr powr_add)

lemma floor_log2_eq:
  assumes "pow2 e \<le> \<bar>x\<bar>" and "\<bar>x\<bar> < pow2 (e + 1)"
  shows "\<lfloor>log 2 \<bar>x\<bar>\<rfloor> = e"
proof -
  have pos: "0 < \<bar>x\<bar>" using assms(1) pow2_pos[of e] by linarith
  have "real_of_int e \<le> log 2 \<bar>x\<bar>"
    using assms(1) pos by (simp add: pow2_powr le_log_iff)
  moreover have "log 2 \<bar>x\<bar> < real_of_int (e + 1)"
    using assms(2) pos by (simp add: pow2_powr log_less_iff)
  ultimately show ?thesis by linarith
qed

lemma expo_eqI:
  "pow2 e \<le> \<bar>x\<bar> \<Longrightarrow> \<bar>x\<bar> < pow2 (e + 1) \<Longrightarrow> - 1022 \<le> e \<Longrightarrow> expo x = e"
  by (simp add: expo_def floor_log2_eq)

text \<open>Evaluating \<open>fl\<close> at a number whose binade is known.\<close>

lemma fl_eval:
  "pow2 e \<le> \<bar>x\<bar> \<Longrightarrow> \<bar>x\<bar> < pow2 (e + 1) \<Longrightarrow> - 1022 \<le> e \<Longrightarrow>
   fl x = of_int (rne (x / pow2 (e - 52))) * pow2 (e - 52)"
proof -
  assume a: "pow2 e \<le> \<bar>x\<bar>" "\<bar>x\<bar> < pow2 (e + 1)" "- 1022 \<le> e"
  have "0 < \<bar>x\<bar>" using a(1) pow2_pos[of e] by linarith
  then have "x \<noteq> 0" by simp
  then show ?thesis by (simp add: fl_def expo_eqI[OF a])
qed

lemma rne_close: "\<bar>of_int (rne y) - y\<bar> \<le> 1 / 2"
  unfolding rne_def Let_def by (auto; linarith)

lemma rne_of_int [simp]: "rne (of_int m) = m"
  by (simp add: rne_def)

lemma rne_ge_one: "1 \<le> y \<Longrightarrow> 1 \<le> rne y"
  unfolding rne_def Let_def by (auto; linarith)

lemma rne_nonpos: "y \<le> 0 \<Longrightarrow> rne y \<le> 0"
  unfolding rne_def Let_def by (auto; linarith)

lemma expo_le:
  assumes "x \<noteq> 0" and "\<bar>x\<bar> \<le> pow2 k" and "- 1022 \<le> k"
  shows "expo x \<le> k"
proof -
  have "log 2 \<bar>x\<bar> \<le> real_of_int k"
    using assms(1,2) by (simp add: pow2_powr log_le_iff)
  then have "\<lfloor>log 2 \<bar>x\<bar>\<rfloor> \<le> k" by linarith
  with assms(3) show ?thesis by (simp add: expo_def)
qed

text \<open>Rounding moves a number by at most half a unit of its binade.\<close>

lemma fl_bound:
  assumes "\<bar>x\<bar> \<le> pow2 k" and "- 1022 \<le> k"
  shows "\<bar>fl x\<bar> \<le> pow2 (k + 1)"
proof (cases "x = 0")
  case True
  then show ?thesis by (simp add: fl_def)
next
  case False
  let ?q = "pow2 (expo x - 52)"
  have q: "0 < ?q" by simp
  have "expo x \<le> k" using expo_le[OF False assms] .
  then have qk: "?q \<le> pow2 k" by (intro pow2_mono) simp
  have a: "\<bar>of_int (rne (x / ?q)) - x / ?q\<bar> \<le> 1 / 2" by (rule rne_close)
  have "of_int (rne (x / ?q)) * ?q - x = (of_int (rne (x / ?q)) - x / ?q) * ?q"
    by (simp add: left_diff_distrib)
  then have "\<bar>of_int (rne (x / ?q)) * ?q - x\<bar> = \<bar>of_int (rne (x / ?q)) - x / ?q\<bar> * ?q"
    by (simp add: abs_mult)
  also have "\<dots> \<le> (1 / 2) * ?q" using a q by (intro mult_right_mono) simp_all
  finally have "\<bar>of_int (rne (x / ?q)) * ?q - x\<bar> \<le> ?q / 2" by simp
  then have "\<bar>of_int (rne (x / ?q)) * ?q\<bar> \<le> \<bar>x\<bar> + ?q / 2" by linarith
  then have "\<bar>fl x\<bar> \<le> \<bar>x\<bar> + ?q / 2" using False by (simp add: fl_def)
  also have "\<dots> \<le> pow2 k + pow2 k" using assms(1) qk q by linarith
  also have "\<dots> = pow2 (k + 1)"
  proof -
    have "pow2 1 = 2" by (simp add: pow2_def)
    then show ?thesis by (simp add: pow2_add)
  qed
  finally show ?thesis .
qed

lemma dbl_Num:
  assumes "\<bar>x\<bar> \<le> pow2 k" and "- 1022 \<le> k" and "k < 1023"
  shows "dbl x = Num (fl x)"
proof -
  have "\<bar>fl x\<bar> \<le> pow2 (k + 1)" using fl_bound[OF assms(1,2)] .
  also have "\<dots> \<le> pow2 1023" using assms(3) by (intro pow2_mono) simp
  also have "\<dots> < pow2 1024" by (simp add: pow2_powr)
  finally show ?thesis by (simp add: dbl_def)
qed

lemma fl_zero [simp]: "fl 0 = 0"
  by (simp add: fl_def)

lemma pow2_not_le_zero [simp]: "\<not> pow2 e \<le> 0"
  using pow2_pos[of e] by linarith

lemma dbl_zero [simp]: "dbl 0 = Num 0"
  by (simp add: dbl_def)

text \<open>Integers below \<open>2^53\<close> in magnitude are doubles.\<close>

lemma fl_int:
  assumes "\<bar>n\<bar> < 2 ^ 53"
  shows "fl (of_int n) = of_int n"
proof (cases "n = 0")
  case True
  then show ?thesis by simp
next
  case False
  let ?x = "real_of_int n"
  have "1 \<le> \<bar>n\<bar>" using False by linarith
  then have x1: "1 \<le> \<bar>?x\<bar>" by (metis of_int_abs of_int_1_le_iff)
  have x2: "\<bar>?x\<bar> < 2 ^ 53" using assms by (metis of_int_abs of_int_less_numeral_power_cancel_iff)
  have lo: "0 \<le> \<lfloor>log 2 \<bar>?x\<bar>\<rfloor>" using x1 by simp
  have "log 2 \<bar>?x\<bar> < 53" using x1 x2 by (simp add: log_less_iff)
  then have hi: "\<lfloor>log 2 \<bar>?x\<bar>\<rfloor> \<le> 52" by linarith
  define e where "e = \<lfloor>log 2 \<bar>?x\<bar>\<rfloor>"
  have ex: "expo ?x = e" using lo by (simp add: expo_def e_def)
  have q: "pow2 (e - 52) = 1 / 2 ^ nat (52 - e)"
    using hi lo unfolding e_def[symmetric] by (auto simp: pow2_def)
  have "?x / pow2 (e - 52) = of_int (n * 2 ^ nat (52 - e))" by (simp add: q)
  then have "rne (?x / pow2 (e - 52)) = n * 2 ^ nat (52 - e)" by (simp only: rne_of_int)
  then show ?thesis using False by (simp add: fl_def ex q)
qed

lemma dbl_int:
  assumes "\<bar>n\<bar> < 2 ^ 53"
  shows "dbl (of_int n) = Num (of_int n)"
proof -
  have "\<bar>real_of_int n\<bar> < 2 ^ 53"
    using assms by (metis of_int_abs of_int_less_numeral_power_cancel_iff)
  then have "\<bar>real_of_int n\<bar> \<le> pow2 53" by (simp add: pow2_def)
  from dbl_Num[OF this] fl_int[OF assms] show ?thesis by simp
qed

lemma dbl_small_ints [simp]:
  "dbl 1 = Num 1" "dbl 2 = Num 2" "dbl 4 = Num 4" "dbl 5 = Num 5" "dbl 32 = Num 32"
  using dbl_int[of 1] dbl_int[of 2] dbl_int[of 4] dbl_int[of 5] dbl_int[of 32] by simp_all

text \<open>Two different doubles differ by a number that does not round to zero.\<close>

lemma fl_pos:
  assumes "pow2 (- 1074) \<le> d"
  shows "0 < fl d"
proof -
  have dpos: "0 < d" using assms pow2_pos[of "- 1074"] by linarith
  let ?q = "pow2 (expo d - 52)"
  have "?q \<le> d"
  proof (cases "- 1022 \<le> \<lfloor>log 2 \<bar>d\<bar>\<rfloor>")
    case True
    then have e: "expo d = \<lfloor>log 2 \<bar>d\<bar>\<rfloor>" by (simp add: expo_def)
    have "real_of_int \<lfloor>log 2 d\<rfloor> \<le> log 2 d" by simp
    then have "pow2 \<lfloor>log 2 d\<rfloor> \<le> d"
      using dpos le_log_iff[of 2 d "real_of_int \<lfloor>log 2 d\<rfloor>"] by (simp add: pow2_powr)
    moreover have "?q \<le> pow2 \<lfloor>log 2 d\<rfloor>" using e dpos by (intro pow2_mono) simp
    ultimately show ?thesis by linarith
  next
    case False
    then have "expo d = - 1022" by (simp add: expo_def)
    with assms show ?thesis by simp
  qed
  then have "1 \<le> d / ?q" by simp
  then have "1 \<le> rne (d / ?q)" by (rule rne_ge_one)
  then have "0 < real_of_int (rne (d / ?q)) * ?q" by simp
  then show ?thesis using dpos by (simp add: fl_def)
qed

lemma fl_nonpos: "d \<le> 0 \<Longrightarrow> fl d \<le> 0"
proof -
  assume d: "d \<le> 0"
  have "d / pow2 (expo d - 52) \<le> 0" using d by (simp add: divide_nonpos_pos)
  then have "rne (d / pow2 (expo d - 52)) \<le> 0" by (rule rne_nonpos)
  then have "real_of_int (rne (d / pow2 (expo d - 52))) * pow2 (expo d - 52) \<le> 0"
    by (simp add: mult_nonpos_nonneg)
  then show ?thesis by (simp add: fl_def)
qed

lemma double_grid:
  assumes "fl x = x"
  shows "\<exists>m::int. x = of_int m * pow2 (- 1074)"
proof (cases "x = 0")
  case True
  then show ?thesis by (intro exI[of _ 0]) simp
next
  case False
  have "- 1022 \<le> expo x" by (simp add: expo_def)
  then have "pow2 (expo x - 52) = of_int (2 ^ nat (expo x + 1022)) * pow2 (- 1074)"
    using pow2_add[of "expo x + 1022" "- 1074"] by (simp add: pow2_def)
  moreover have "x = of_int (rne (x / pow2 (expo x - 52))) * pow2 (expo x - 52)"
    using assms False by (simp add: fl_def)
  ultimately have "x = of_int (rne (x / pow2 (expo x - 52)) * 2 ^ nat (expo x + 1022)) * pow2 (- 1074)"
    by simp
  then show ?thesis by blast
qed

lemma fl_sub_pos:
  assumes "fl x = x" and "fl y = y" and "x < y"
  shows "0 < fl (y - x)"
proof -
  from double_grid[OF assms(1)] obtain m where m: "x = of_int m * pow2 (- 1074)" by blast
  from double_grid[OF assms(2)] obtain k where k: "y = of_int k * pow2 (- 1074)" by blast
  from assms(3) m k have "real_of_int m < real_of_int k" by simp
  then have "1 \<le> real_of_int (k - m)" by simp
  then have "1 * pow2 (- 1074) \<le> real_of_int (k - m) * pow2 (- 1074)"
    by (intro mult_right_mono) simp_all
  then have "pow2 (- 1074) \<le> y - x" by (simp add: m k left_diff_distrib)
  then show ?thesis by (rule fl_pos)
qed

section \<open>Properties of cosine similarity\<close>

lemma cosineSimilarity_length_mismatch:
  "length vecA \<noteq> length vecB \<Longrightarrow> cosineSimilarity vecA vecB = Num 0"
  by (simp add: cosineSimilarity_def)

lemma dbl_sqrt5: "dbl (sqrt 5) = Num (fl (sqrt 5))"
proof -
  have "sqrt 5 \<le> sqrt 16" by (simp only: real_sqrt_le_iff)
  also have "sqrt 16 = 4" using real_sqrt_pow2[of 4] by simp
  finally have "\<bar>sqrt 5\<bar> \<le> pow2 2" by (simp add: pow2_def)
  from dbl_Num[OF this] show ?thesis by simp
qed

text \<open>
  C1. \<open>cosineSimilarity\<close> is total on vectors and returns \<open>0\<close> on a length mismatch
  (lemma above), but for an all-zero vector it does not return \<open>0\<close>: the norms multiply
  to \<open>0\<close>, the quotient is \<open>0 / 0\<close>, and the value returned for \<open>[0, 0]\<close> against
  \<open>[1, 2]\<close> is \<open>NaN\<close>.
\<close>

theorem cosineSimilarity_zero_vector_NaN:
  "cosineSimilarity [0, 0] [1, 2] = NaN"
  by (simp add: cosineSimilarity_def dbl_sqrt5 inf_of_def)

section \<open>Properties of the credential rotation\<close>

lemma sent_fields [simp]:
  "geminiApiKeys (sent ep svc) = geminiApiKeys svc"
  "currentKeyIndex (sent ep svc) = currentKeyIndex svc"
  "requests (sent ep svc) = requests svc @ [(ep, getCurrentApiKey svc)]"
  by (simp_all add: sent_def)

lemma switch_fields [simp]:
  "geminiApiKeys (switchToNextKey svc) = geminiApiKeys svc"
  "requests (switchToNextKey svc) = requests svc"
  by (simp_all add: switchToNextKey_def)

lemma switch_index:
  "currentKeyIndex svc = Some i \<Longrightarrow> i < length (geminiApiKeys svc) \<Longrightarrow>
   currentKeyIndex (switchToNextKey svc) = Some ((i + 1) mod length (geminiApiKeys svc))"
  by (cases "geminiApiKeys svc") (simp_all add: switchToNextKey_def)

lemma current_key:
  "currentKeyIndex svc = Some i \<Longrightarrow> i < length (geminiApiKeys svc) \<Longrightarrow>
   getCurrentApiKey svc = Some (geminiApiKeys svc ! i)"
  by (simp add: getCurrentApiKey_def)

lemma ge_retry:
  assumes "embedContent api (length (requests svc)) (getCurrentApiKey svc) q = Rejected (Some 429)"
      and "retryCount + 1 < length (geminiApiKeys svc)"
  shows "generateEmbeddings api svc q retryCount
           = generateEmbeddings api (switchToNextKey (sent EmbedContent svc)) q (retryCount + 1)"
  using assms by (subst generateEmbeddings.simps) simp

lemma ge_fail:
  assumes "embedContent api (length (requests svc)) (getCurrentApiKey svc) q = Unusable
           \<or> (\<exists>status. embedContent api (length (requests svc)) (getCurrentApiKey svc) q = Rejected status
                  \<and> status \<noteq> Some 429)"
  shows "generateEmbeddings api svc q retryCount
           = (Inl (Error ''Failed to generate embeddings''), sent EmbedContent svc)"
  using assms by (subst generateEmbeddings.simps) auto

lemma key_run_Suc:
  "i < length keys \<Longrightarrow>
   (EmbedContent, Some (keys ! i)) # key_run keys ((i + 1) mod length keys) m = key_run keys i (Suc m)"
  by (simp add: key_run_def map_upt_Suc mod_add_left_eq del: upt_Suc)

lemma ge_log:
  "currentKeyIndex svc = Some i \<Longrightarrow> i < length (geminiApiKeys svc) \<Longrightarrow> r < length (geminiApiKeys svc) \<Longrightarrow>
   \<exists>m. 1 \<le> m \<and> m \<le> length (geminiApiKeys svc) - r
     \<and> requests (snd (generateEmbeddings api svc q r)) = requests svc @ key_run (geminiApiKeys svc) i m"
proof (induction api svc q r arbitrary: i rule: generateEmbeddings.induct)
  case (1 api svc q r)
  let ?n = "length (geminiApiKeys svc)"
  have key: "getCurrentApiKey svc = Some (geminiApiKeys svc ! i)"
    using "1.prems" by (simp add: current_key)
  have one: "key_run (geminiApiKeys svc) i 1 = [(EmbedContent, Some (geminiApiKeys svc ! i))]"
    using "1.prems" by (simp add: key_run_def)
  show ?case
  proof (cases "\<exists>st. embedContent api (length (requests svc)) (getCurrentApiKey svc) q = Rejected st \<and> st = Some 429 \<and> int r < int ?n - 1")
    case True
    then have rej: "embedContent api (length (requests svc)) (getCurrentApiKey svc) q = Rejected (Some 429)"
      and lt: "r + 1 < ?n" by auto
    let ?svc = "switchToNextKey (sent EmbedContent svc)"
    have idx: "currentKeyIndex ?svc = Some ((i + 1) mod ?n)"
      using switch_index[of "sent EmbedContent svc" i] "1.prems" by simp
    have "\<exists>m. 1 \<le> m \<and> m \<le> length (geminiApiKeys ?svc) - (r + 1)
       \<and> requests (snd (generateEmbeddings api ?svc q (r + 1)))
           = requests ?svc @ key_run (geminiApiKeys ?svc) ((i + 1) mod ?n) m"
    proof (rule "1.IH"[OF rej _ idx])
      show "Some 429 = Some 429 \<and> int r < int ?n - 1" using lt by simp
      have "0 < ?n" using "1.prems" by arith
      then show "(i + 1) mod ?n < length (geminiApiKeys ?svc)" by simp
      show "r + 1 < length (geminiApiKeys ?svc)" using lt by simp
    qed
    then obtain m where m: "1 \<le> m" "m \<le> ?n - (r + 1)"
      "requests (snd (generateEmbeddings api ?svc q (r + 1)))
           = requests ?svc @ key_run (geminiApiKeys svc) ((i + 1) mod ?n) m"
      by auto
    have "requests (snd (generateEmbeddings api svc q r)) = requests svc @ key_run (geminiApiKeys svc) i (Suc m)"
      using m(3) key_run_Suc[of i "geminiApiKeys svc" m] "1.prems" key
      by (simp add: ge_retry[OF rej lt])
    moreover have "1 \<le> Suc m" "Suc m \<le> ?n - r" using m lt by auto
    ultimately show ?thesis by blast
  next
    case False
    then have "snd (generateEmbeddings api svc q r) = sent EmbedContent svc"
      by (subst generateEmbeddings.simps) (auto split: reply.splits)
    then have "requests (snd (generateEmbeddings api svc q r)) = requests svc @ key_run (geminiApiKeys svc) i 1"
      using key one by simp
    moreover have "(1::nat) \<le> ?n - r" using "1.prems" by simp
    ultimately show ?thesis by (intro exI[of _ 1]) simp
  qed
qed

text \<open>
  C5. In \<open>generateEmbeddings\<close>, with the pointer on a key of a non-empty key list:
  a 429 answer, while fewer retries than keys remain, advances the pointer by one modulo
  the number of keys and continues as the same call on the next key; a call makes between
  one and as many requests as there are keys, on consecutive keys in rotation order; and
  any other failure (an unusable payload, a rejection without status 429) ends the call
  with the error after that one request.
\<close>

theorem generateEmbeddings_rotation:
  assumes "currentKeyIndex svc = Some i" and "i < length (geminiApiKeys svc)"
  shows "(embedContent api (length (requests svc)) (getCurrentApiKey svc) q = Rejected (Some 429)
            \<and> retryCount + 1 < length (geminiApiKeys svc)
          \<longrightarrow> generateEmbeddings api svc q retryCount
                = generateEmbeddings api (switchToNextKey (sent EmbedContent svc)) q (retryCount + 1)
              \<and> currentKeyIndex (switchToNextKey (sent EmbedContent svc))
                = Some ((i + 1) mod length (geminiApiKeys svc))
              \<and> getCurrentApiKey (switchToNextKey (sent EmbedContent svc))
                = Some (geminiApiKeys svc ! ((i + 1) mod length (geminiApiKeys svc))))
         \<and> (\<exists>m. 1 \<le> m \<and> m \<le> length (geminiApiKeys svc)
                \<and> requests (snd (generateEmbeddings api svc q 0))
                    = requests svc @ key_run (geminiApiKeys svc) i m)
         \<and> (embedContent api (length (requests svc)) (getCurrentApiKey svc) q = Unusable
              \<or> (\<exists>status. embedContent api (length (requests svc)) (getCurrentApiKey svc) q
                               = Rejected status \<and> status \<noteq> Some 429)
            \<longrightarrow> generateEmbeddings api svc q retryCount
                  = (Inl (Error ''Failed to generate embeddings''), sent EmbedContent svc))"
proof (intro conjI impI)
  let ?svc = "switchToNextKey (sent EmbedContent svc)"
  have npos: "0 < length (geminiApiKeys svc)" using assms by arith
  show idx: "currentKeyIndex ?svc = Some ((i + 1) mod length (geminiApiKeys svc))"
    using switch_index[of "sent EmbedContent svc" i] assms by simp
  have "(i + 1) mod length (geminiApiKeys ?svc) < length (geminiApiKeys ?svc)"
    using npos by simp
  with idx show "getCurrentApiKey ?svc
                   = Some (geminiApiKeys svc ! ((i + 1) mod length (geminiApiKeys svc)))"
    using current_key[of ?svc "(i + 1) mod length (geminiApiKeys svc)"] by simp
  show "\<exists>m. 1 \<le> m \<and> m \<le> length (geminiApiKeys svc)
            \<and> requests (snd (generateEmbeddings api svc q 0))
                = requests svc @ key_run (geminiApiKeys svc) i m"
    using ge_log[OF assms npos, of api q] by auto
next
  assume "embedContent api (length (requests svc)) (getCurrentApiKey svc) q = Rejected (Some 429)
            \<and> retryCount + 1 < length (geminiApiKeys svc)"
  then show "generateEmbeddings api svc q retryCount
               = generateEmbeddings api (switchToNextKey (sent EmbedContent svc)) q (retryCount + 1)"
    by (simp add: ge_retry)
next
  assume "embedContent api (length (requests svc)) (getCurrentApiKey svc) q = Unusable
              \<or> (\<exists>status. embedContent api (length (requests svc)) (getCurrentApiKey svc) q
                               = Rejected status \<and> status \<noteq> Some 429)"
  then show "generateEmbeddings api svc q retryCount
               = (Inl (Error ''Failed to generate embeddings''), sent EmbedContent svc)"
    by (rule ge_fail)
qed

theorem generateEmbeddings_rotation_witness:
  "currentKeyIndex threeKeys = Some 0 \<and> 0 < length (geminiApiKeys threeKeys)
   \<and> embedContent throttled (length (requests threeKeys)) (getCurrentApiKey threeKeys) ''q''
       = Rejected (Some 429)
   \<and> 0 + 1 < length (geminiApiKeys threeKeys)
   \<and> generateEmbeddings throttled threeKeys ''q'' 0
       = generateEmbeddings throttled (switchToNextKey (sent EmbedContent threeKeys)) ''q'' (0 + 1)
   \<and> currentKeyIndex (switchToNextKey (sent EmbedContent threeKeys)) = Some 1
   \<and> (\<exists>status. embedContent down (length (requests threeKeys)) (getCurrentApiKey threeKeys) ''q''
                    = Rejected status \<and> status \<noteq> Some 429)
   \<and> generateEmbeddings down threeKeys ''q'' 0
       = (Inl (Error ''Failed to generate embeddings''), sent EmbedContent threeKeys)"
proof -
  have idx: "currentKeyIndex threeKeys = Some 0" by (simp add: threeKeys_def)
  have len: "length (geminiApiKeys threeKeys) = 3" by (simp add: threeKeys_def)
  have lt: "0 < length (geminiApiKeys threeKeys)" by (simp add: len)
  have rej: "embedContent throttled (length (requests threeKeys)) (getCurrentApiKey threeKeys) ''q''
       = Rejected (Some 429)"
    by (simp add: throttled_def threeKeys_def getCurrentApiKey_def)
  have more: "0 + 1 < length (geminiApiKeys threeKeys)" by (simp add: len)
  have bad: "\<exists>status. embedContent down (length (requests threeKeys)) (getCurrentApiKey threeKeys) ''q''
                    = Rejected status \<and> status \<noteq> Some 429"
    by (simp add: down_def)
  note t = generateEmbeddings_rotation[OF idx lt, of throttled "''q''" 0]
  note d = generateEmbeddings_rotation[OF idx lt, of down "''q''" 0]
  from t rej more have
    "generateEmbeddings throttled threeKeys ''q'' 0
       = generateEmbeddings throttled (switchToNextKey (sent EmbedContent threeKeys)) ''q'' (0 + 1)"
    "currentKeyIndex (switchToNextKey (sent EmbedContent threeKeys)) = Some 1"
    by (simp_all add: len)
  moreover from d bad have "generateEmbeddings down threeKeys ''q'' 0
       = (Inl (Error ''Failed to generate embeddings''), sent EmbedContent threeKeys)"
    by blast
  ultimately show ?thesis using idx lt rej more bad by (intro conjI)
qed

section \<open>Properties of text extraction\<close>

lemma unsupported_not_member: "''xyz'' \<notin> supportedTypes"
  by (simp add: supportedTypes_def)

text \<open>
  C9, as stated, fails: the \<open>Unsupported file type\<close> error is thrown inside the \<open>try\<close>
  of \<open>extractText\<close> and its \<open>catch\<close> replaces it, so for the unsupported type \<open>xyz\<close> the
  caller receives \<open>Failed to extract text from xyz file\<close>, the very error that wraps a parser
  failure of a supported format (here \<open>pdf\<close>), and not the unsupported-type error.
\<close>

theorem extractText_unsupported_counterexample:
  "extractText noParsers ''uploads/doc-1.xyz'' ''xyz''
     = Inl (Error ''Failed to extract text from xyz file'')
   \<and> extractText noParsers ''uploads/doc-1.xyz'' ''xyz'' \<noteq> Inl (unsupportedFileType ''xyz'')
   \<and> extractText noParsers ''uploads/doc-1.pdf'' ''pdf''
     = Inl (Error ''Failed to extract text from pdf file'')"
  by code_simp

text \<open>
  C9, amended. For every file type outside the supported set \<open>extractText\<close> fails, and
  every failure of \<open>extractText\<close>, for an unsupported type as for a parser failure of a
  supported one, is the single error \<open>Failed to extract text from <fileType> file\<close>.
\<close>

theorem extractText_failures_wrapped:
  "(fileType \<notin> supportedTypes
      \<longrightarrow> extractText env filePath fileType = Inl (failedToExtract fileType))
   \<and> (extractText env filePath fileType = Inl e \<longrightarrow> e = failedToExtract fileType)"
proof
  show "fileType \<notin> supportedTypes
      \<longrightarrow> extractText env filePath fileType = Inl (failedToExtract fileType)"
    unfolding extractText_def supportedTypes_def by simp
  show "extractText env filePath fileType = Inl e \<longrightarrow> e = failedToExtract fileType"
    unfolding extractText_def by (simp split: sum.splits)
qed


theorem extractText_failures_wrapped_witness:
  "''xyz'' \<notin> supportedTypes
   \<and> extractText noParsers ''uploads/doc-1.xyz'' ''xyz'' = Inl (failedToExtract ''xyz'')
   \<and> extractText noParsers ''uploads/doc-1.pdf'' ''pdf'' = Inl (failedToExtract ''pdf'')"
proof -
  have pdf: "extractText noParsers ''uploads/doc-1.pdf'' ''pdf''
               = Inl (Error ''Failed to extract text from pdf file'')"
    by code_simp
  have a: "extractText noParsers ''uploads/doc-1.pdf'' ''pdf'' = Inl (failedToExtract ''pdf'')"
    using extractText_failures_wrapped[of "''pdf''" noParsers "''uploads/doc-1.pdf''"
         "Error ''Failed to extract text from pdf file''", THEN conjunct2, THEN mp, OF pdf] pdf
    by (simp only:)
  have b: "extractText noParsers ''uploads/doc-1.xyz'' ''xyz'' = Inl (failedToExtract ''xyz'')"
    by (rule extractText_failures_wrapped[of "''xyz''" noParsers "''uploads/doc-1.xyz''",
          THEN conjunct1, THEN mp, OF unsupported_not_member])
  from a b unsupported_not_member show ?thesis by (intro conjI)
qed

section \<open>Properties of the readability score\<close>

lemma foldl_syllables:
  "foldl (\<lambda>acc word. acc + countSyllables word) n ws = n + sum_list (map countSyllables ws)"
  by (induction ws arbitrary: n) simp_all

lemma calculateReadability_counts:
  "score (calculateReadability tokenize doc)
     = js_round (fleschScore
         (js_div (Num (real (length (splitWords doc)))) (Num (real (length (tokenize doc)))))
         (js_div (Num (real (sum_list (map countSyllables (splitWords doc)))))
                 (Num (real (length (splitWords doc))))))
   \<and> level (calculateReadability tokenize doc)
     = fleschLevel (fleschScore
         (js_div (Num (real (length (splitWords doc)))) (Num (real (length (tokenize doc)))))
         (js_div (Num (real (sum_list (map countSyllables (splitWords doc)))))
                 (Num (real (length (splitWords doc))))))"
  by (simp add: calculateReadability_def Let_def foldl_syllables)

lemma fleschLevel_Num: "fleschLevel (Num x) = spec_band x"
  by (simp add: fleschLevel_def spec_band_def)

text \<open>No word has more syllables than letters, and the words of a text are no longer than it.\<close>

lemma syllable_loop_le: "fst (syllable_loop w (n, b)) \<le> n + length w"
proof (induction w arbitrary: n b)
  case Nil
  show ?case by simp
next
  case (Cons c w)
  show ?case
  proof (cases "c \<in> set ''aeiouy''")
    case True
    with Cons.IH[of "Suc n" True] Cons.IH[of n True] show ?thesis
      by (cases b) (simp_all add: Let_def del: set_simps)
  next
    case False
    with Cons.IH[of n False] show ?thesis by (simp add: Let_def del: set_simps)
  qed
qed

lemma countSyllables_le: "w \<noteq> [] \<Longrightarrow> countSyllables w \<le> length w"
proof -
  assume "w \<noteq> []"
  then have pos: "1 \<le> length w" by (cases w) simp_all
  have len: "length (toLowerCase w) = length w" by (simp add: toLowerCase_def)
  have "fst (syllable_loop (toLowerCase w) (0, False)) \<le> length w"
    using syllable_loop_le[of "toLowerCase w" 0 False] len by simp
  with pos len show ?thesis by (auto simp: countSyllables_def Let_def)
qed

lemma splitOn_lengths: "sum_list (map length (splitOn P s)) \<le> length s"
proof (induction P s rule: splitOn.induct)
  case (1 P)
  show ?case by simp
next
  case (2 P c cs)
  show ?case
  proof (cases "P c")
    case True
    have "length (dropWhile P cs) \<le> length cs" by (rule length_dropWhile_le)
    with "2.IH"(1)[OF True] True show ?thesis by simp
  next
    case False
    with "2.IH"(2)[OF False] show ?thesis by (cases "splitOn P cs") simp_all
  qed
qed

lemma splitWords_lengths: "sum_list (map length (splitWords s)) \<le> length s"
proof -
  have "sum_list (map length (filter (\<lambda>w. 0 < length w) xs)) \<le> sum_list (map length xs)" for xs :: "string list"
    by (induction xs) simp_all
  from this[of "splitOn isSpace s"] splitOn_lengths[of isSpace s] show ?thesis
    by (simp add: splitWords_def)
qed

lemma words_count_le: "length (splitWords s) \<le> length s"
proof -
  have "length xs \<le> sum_list (map length xs)" if "\<forall>w \<in> set xs. w \<noteq> []" for xs :: "string list"
    using that
  proof (induction xs)
    case Nil
    show ?case by simp
  next
    case (Cons x xs)
    then have "1 \<le> length x" by (cases x) simp_all
    with Cons show ?case by simp
  qed
  moreover have "\<forall>w \<in> set (splitWords s). w \<noteq> []" by (auto simp: splitWords_def)
  ultimately show ?thesis using splitWords_lengths[of s] by fastforce
qed

lemma syllables_count_le: "sum_list (map countSyllables (splitWords s)) \<le> length s"
proof -
  have "sum_list (map countSyllables xs) \<le> sum_list (map length xs)"
    if "\<forall>w \<in> set xs. w \<noteq> []" for xs :: "string list"
    using that
  proof (induction xs)
    case Nil
    show ?case by simp
  next
    case (Cons x xs)
    then have "countSyllables x \<le> length x" by (simp add: countSyllables_le)
    with Cons show ?case by simp
  qed
  moreover have "\<forall>w \<in> set (splitWords s). w \<noteq> []" by (auto simp: splitWords_def)
  ultimately show ?thesis using splitWords_lengths[of s] by fastforce
qed

text \<open>Finite operands of bounded size give finite results.\<close>

lemma dbl_fin:
  assumes "\<bar>x\<bar> \<le> pow2 i" and "0 \<le> i" and "i < 1000"
  shows "dbl x = Num (fl x) \<and> \<bar>fl x\<bar> \<le> pow2 (i + 1)"
  using dbl_Num[OF assms(1)] fl_bound[OF assms(1)] assms(2,3) by simp

lemma js_mul_fin:
  assumes "\<bar>x\<bar> \<le> pow2 i" and "\<bar>y\<bar> \<le> pow2 j" and "0 \<le> i" and "0 \<le> j" and "i + j < 1000"
  shows "js_mul (Num x) (Num y) = Num (fl (x * y)) \<and> \<bar>fl (x * y)\<bar> \<le> pow2 (i + j + 1)"
proof -
  have "\<bar>x * y\<bar> \<le> pow2 i * pow2 j"
    unfolding abs_mult using assms(1,2) by (intro mult_mono) simp_all
  then have "\<bar>x * y\<bar> \<le> pow2 (i + j)" by (simp add: pow2_add)
  from dbl_fin[OF this] assms(3-5) show ?thesis by simp
qed

lemma js_sub_fin:
  assumes "\<bar>x\<bar> \<le> pow2 i" and "\<bar>y\<bar> \<le> pow2 j" and "i \<le> k" and "j \<le> k" and "0 \<le> k" and "k < 999"
  shows "js_sub (Num x) (Num y) = Num (fl (x - y)) \<and> \<bar>fl (x - y)\<bar> \<le> pow2 (k + 2)"
proof -
  have "\<bar>x\<bar> \<le> pow2 k" "\<bar>y\<bar> \<le> pow2 k"
    using assms(1,2) pow2_mono[OF assms(3)] pow2_mono[OF assms(4)] by linarith+
  then have "\<bar>x - y\<bar> \<le> pow2 k + pow2 k" by linarith
  also have "\<dots> = pow2 (k + 1)"
  proof -
    have "pow2 1 = 2" by (simp add: pow2_def)
    then show ?thesis by (simp add: pow2_add)
  qed
  finally have "\<bar>x - y\<bar> \<le> pow2 (k + 1)" .
  from dbl_fin[OF this] assms(5,6) show ?thesis by (simp add: add.commute add.left_commute)
qed

lemma js_div_fin:
  assumes "y \<noteq> 0" and "\<bar>x / y\<bar> \<le> pow2 i" and "0 \<le> i" and "i < 1000"
  shows "js_div (Num x) (Num y) = Num (fl (x / y)) \<and> \<bar>fl (x / y)\<bar> \<le> pow2 (i + 1)"
  using dbl_fin[OF assms(2-4)] assms(1) by simp

lemma ratio_bound:
  assumes "1 \<le> b" and "a < 2 ^ 53"
  shows "\<bar>real a / real b\<bar> \<le> pow2 53"
proof -
  have "real a / real b \<le> real a" using assms(1) by (simp add: field_simps mult_le_cancel_left1)
  moreover have "real a \<le> 2 ^ 53" using assms(2) by (metis less_imp_le of_nat_le_numeral_power_cancel_iff)
  ultimately show ?thesis by (simp add: pow2_def)
qed

lemma fleschScore_double:
  assumes "1 \<le> W" and "1 \<le> S" and "W < 2 ^ 53" and "Y < 2 ^ 53"
  shows "fleschScore (js_div (Num (real W)) (Num (real S))) (js_div (Num (real Y)) (Num (real W)))
           = Num (flesch_double W S Y)"
proof -
  have aw: "js_div (Num (real W)) (Num (real S)) = Num (fl (real W / real S))"
           "\<bar>fl (real W / real S)\<bar> \<le> pow2 54"
    using js_div_fin[OF _ ratio_bound[OF assms(2,3)]] assms(2) by simp_all
  have as: "js_div (Num (real Y)) (Num (real W)) = Num (fl (real Y / real W))"
           "\<bar>fl (real Y / real W)\<bar> \<le> pow2 54"
    using js_div_fin[OF _ ratio_bound[OF assms(1,4)]] assms(1) by simp_all
  have c0: "dbl 206.835 = Num (fl 206.835)" "\<bar>fl 206.835\<bar> \<le> pow2 9"
    using dbl_fin[of "206.835" 8] by (simp_all add: pow2_def)
  have c1: "dbl 1.015 = Num (fl 1.015)" "\<bar>fl 1.015\<bar> \<le> pow2 2"
    using dbl_fin[of "1.015" 1] by (simp_all add: pow2_def)
  have c2: "dbl 84.6 = Num (fl 84.6)" "\<bar>fl 84.6\<bar> \<le> pow2 8"
    using dbl_fin[of "84.6" 7] by (simp_all add: pow2_def)
  have p1: "js_mul (Num (fl 1.015)) (Num (fl (real W / real S)))
              = Num (fl (fl 1.015 * fl (real W / real S)))"
           "\<bar>fl (fl 1.015 * fl (real W / real S))\<bar> \<le> pow2 57"
    using js_mul_fin[OF c1(2) aw(2)] by simp_all
  have d1: "js_sub (Num (fl 206.835)) (Num (fl (fl 1.015 * fl (real W / real S))))
              = Num (fl (fl 206.835 - fl (fl 1.015 * fl (real W / real S))))"
           "\<bar>fl (fl 206.835 - fl (fl 1.015 * fl (real W / real S)))\<bar> \<le> pow2 59"
    using js_sub_fin[OF c0(2) p1(2), of 57] by simp_all
  have p2: "js_mul (Num (fl 84.6)) (Num (fl (real Y / real W)))
              = Num (fl (fl 84.6 * fl (real Y / real W)))"
           "\<bar>fl (fl 84.6 * fl (real Y / real W))\<bar> \<le> pow2 63"
    using js_mul_fin[OF c2(2) as(2)] by simp_all
  have f: "js_sub (Num (fl (fl 206.835 - fl (fl 1.015 * fl (real W / real S)))))
                  (Num (fl (fl 84.6 * fl (real Y / real W))))
             = Num (fl (fl (fl 206.835 - fl (fl 1.015 * fl (real W / real S)))
                        - fl (fl 84.6 * fl (real Y / real W))))"
    using js_sub_fin[OF d1(2) p2(2), of 63] by simp
  show ?thesis
    by (simp only: fleschScore_def flesch_double_def aw(1) as(1) c0(1) c1(1) c2(1) p1(1) d1(1) p2(1) f)
qed


lemma js_mul_NaN [simp]: "js_mul a NaN = NaN"
  by (cases a) simp_all

lemma js_sub_NaN [simp]: "js_sub a NaN = NaN"
  by (cases a) simp_all

text \<open>
  A text without a word makes \<open>syllables / words\<close> the quotient \<open>0 / 0\<close>: whatever the
  tokenizer returns, the score of a single blank is \<open>NaN\<close>.
\<close>

lemma calculateReadability_blank:
  "score (calculateReadability tok '' '') = NaN
   \<and> level (calculateReadability tok '' '') = ''Very Difficult''"
  by (simp add: calculateReadability_def Let_def splitWords_def isSpace_def fleschScore_def
        fleschLevel_def inf_of_def)

text \<open>The three literals of the formula as doubles.\<close>

lemma fl_206_835: "fl 206.835 = 7277359600993567 / 35184372088832"
  by (subst fl_eval[where e = 7]) (simp_all add: pow2_def rne_def Let_def)

lemma fl_1_015: "fl 1.015 = 4571153621781053 / 4503599627370496"
  by (subst fl_eval[where e = 0]) (simp_all add: pow2_def rne_def Let_def)

lemma fl_84_6: "fl 84.6 = 2976597878715187 / 35184372088832"
  by (subst fl_eval[where e = 6]) (simp_all add: pow2_def rne_def Let_def)

lemma fl_one: "fl 1 = 1"
  using fl_int[of 1] by simp

lemma fl_32: "fl 32 = 32"
  using fl_int[of 32] by simp

text \<open>
  The score of 32 one-syllable words in one sentence, step by step: in double arithmetic
  it is \<open>89.75500000000002\<close>.
\<close>

lemma flesch_double_32: "flesch_double 32 1 32 = 3157973316833117 / 35184372088832"
proof -
  have a: "fl (real (32::nat) / real (1::nat)) = 32" by (simp add: fl_32)
  have b: "fl (real (32::nat) / real (32::nat)) = 1" by (simp add: fl_one)
  have p1: "fl (fl 1.015 * 32) = 4571153621781053 / 140737488355328"
    unfolding fl_1_015 by (subst fl_eval[where e = 5]) (simp_all add: pow2_def rne_def Let_def)
  have d1: "fl (fl 206.835 - 4571153621781053 / 140737488355328) = 383410699721769 / 2199023255552"
    unfolding fl_206_835 by (subst fl_eval[where e = 7]) (simp_all add: pow2_def rne_def Let_def)
  have p2: "fl (fl 84.6 * 1) = 2976597878715187 / 35184372088832"
    unfolding fl_84_6 by (subst fl_eval[where e = 6]) (simp_all add: pow2_def rne_def Let_def)
  have f: "fl (383410699721769 / 2199023255552 - 2976597878715187 / 35184372088832)
             = 3157973316833117 / 35184372088832"
    by (subst fl_eval[where e = 6]) (simp_all add: pow2_def rne_def Let_def)
  show ?thesis by (simp only: flesch_double_def a b p1 d1 p2 f)
qed

text \<open>
  Where the rounding decides: for 45 words, 21 sentences and 232 syllables the formula on
  the real numbers gives \<open>-231.5\<close>, which rounds to \<open>-231\<close>, and double arithmetic gives
  \<open>-231.50000000000003\<close>, which rounds to \<open>-232\<close>.
\<close>

lemma flesch_double_45_21_232:
  "flesch_double 45 21 232 = - 8145182138564609 / 35184372088832
   \<and> \<lfloor>flesch_double 45 21 232 + 1 / 2\<rfloor> = - 232
   \<and> \<lfloor>spec_flesch 45 21 232 + 1 / 2\<rfloor> = - 231"
proof -
  have a: "fl (real (45::nat) / real (21::nat)) = 4825285315039817 / 2251799813685248"
    by (subst fl_eval[where e = 1]) (simp_all add: pow2_def rne_def Let_def)
  have b: "fl (real (232::nat) / real (45::nat)) = 5804639519721973 / 1125899906842624"
    by (subst fl_eval[where e = 2]) (simp_all add: pow2_def rne_def Let_def)
  have p1: "fl (fl 1.015 * (4825285315039817 / 2251799813685248))
              = 2448832297382707 / 1125899906842624"
    unfolding fl_1_015 by (subst fl_eval[where e = 1]) (simp_all add: pow2_def rne_def Let_def)
  have d1: "fl (fl 206.835 - 2448832297382707 / 1125899906842624)
              = 7200833591700357 / 35184372088832"
    unfolding fl_206_835 by (subst fl_eval[where e = 7]) (simp_all add: pow2_def rne_def Let_def)
  have p2: "fl (fl 84.6 * (5804639519721973 / 1125899906842624))
              = 7673007865132483 / 17592186044416"
    unfolding fl_84_6 by (subst fl_eval[where e = 8]) (simp_all add: pow2_def rne_def Let_def)
  have f: "fl (7200833591700357 / 35184372088832 - 7673007865132483 / 17592186044416)
             = - 8145182138564609 / 35184372088832"
    by (subst fl_eval[where e = 7]) (simp_all add: pow2_def rne_def Let_def)
  have v: "flesch_double 45 21 232 = - 8145182138564609 / 35184372088832"
    by (simp only: flesch_double_def a b p1 d1 p2 f)
  show ?thesis unfolding v by (simp add: spec_flesch_def)
qed

text \<open>
  C8, as stated, fails. For a sentence of 32 one-syllable words the Flesch formula gives
  89.755; the score returned is the computed value rounded, 90, and the level returned is
  \<open>Easy\<close>, the band of the unrounded value, whereas the band of the returned score is
  \<open>Very Easy\<close>. For a non-empty text without a word the score is \<open>NaN\<close>.
\<close>

theorem calculateReadability_counterexample:
  "length (splitWords ''a a a a a a a a a a a a a a a a a a a a a a a a a a a a a a a a.'') = 32
   \<and> sum_list (map countSyllables (splitWords ''a a a a a a a a a a a a a a a a a a a a a a a a a a a a a a a a.'')) = 32
   \<and> spec_flesch 32 1 32 = 89.755
   \<and> score (calculateReadability (\<lambda>t. [t]) ''a a a a a a a a a a a a a a a a a a a a a a a a a a a a a a a a.'') = Num 90
   \<and> level (calculateReadability (\<lambda>t. [t]) ''a a a a a a a a a a a a a a a a a a a a a a a a a a a a a a a a.'') = ''Easy''
   \<and> spec_band 90 = ''Very Easy''
   \<and> score (calculateReadability (\<lambda>t. [t]) '' '') = NaN"
proof -
  have w: "length (splitWords ''a a a a a a a a a a a a a a a a a a a a a a a a a a a a a a a a.'') = 32" by code_simp
  have y: "sum_list (map countSyllables (splitWords ''a a a a a a a a a a a a a a a a a a a a a a a a a a a a a a a a.'')) = 32" by code_simp
  have s: "spec_flesch 32 1 32 = 89.755" by (simp add: spec_flesch_def)
  have fs: "fleschScore (js_div (Num (real (32::nat))) (Num (real (1::nat))))
                        (js_div (Num (real (32::nat))) (Num (real (32::nat))))
              = Num (3157973316833117 / 35184372088832)"
    unfolding flesch_double_32[symmetric] by (rule fleschScore_double) simp_all
  have len1: "length [''a a a a a a a a a a a a a a a a a a a a a a a a a a a a a a a a.''] = 1" by simp
  note c = calculateReadability_counts[of "\<lambda>t. [t]" "''a a a a a a a a a a a a a a a a a a a a a a a a a a a a a a a a.''", unfolded w y len1 fs]
  have sc: "score (calculateReadability (\<lambda>t. [t]) ''a a a a a a a a a a a a a a a a a a a a a a a a a a a a a a a a.'') = Num 90"
    using c by simp
  have lv: "level (calculateReadability (\<lambda>t. [t]) ''a a a a a a a a a a a a a a a a a a a a a a a a a a a a a a a a.'') = ''Easy''"
    using c by (simp add: fleschLevel_Num spec_band_def)
  have b: "spec_band 90 = ''Very Easy''" by (simp add: spec_band_def)
  from w y s sc lv b calculateReadability_blank[of "\<lambda>t. [t]"] show ?thesis by (intro conjI) simp_all
qed

text \<open>
  C8, amended. For every text with at least one word and at least one tokenized sentence
  (a string being shorter than \<open>2^53\<close>), the score returned is the Flesch value
  \<open>206.835 - 1.015 (words / sentences) - 84.6 (syllables / words)\<close>, evaluated in double
  arithmetic with every literal and operation rounded to the nearest double, then rounded
  to the nearest integer; and the level returned is the one of the seven bands that holds
  that unrounded double, from \<open>Very Easy\<close> at 90 and above down to \<open>Very Difficult\<close>
  below 30.
\<close>

theorem calculateReadability_flesch:
  assumes "splitWords doc \<noteq> []" and "tokenize doc \<noteq> []" and "length doc < 2 ^ 53"
  shows "score (calculateReadability tokenize doc)
           = Num (of_int \<lfloor>flesch_double (length (splitWords doc)) (length (tokenize doc))
                                (sum_list (map countSyllables (splitWords doc))) + 1 / 2\<rfloor>)
         \<and> level (calculateReadability tokenize doc)
           = spec_band (flesch_double (length (splitWords doc)) (length (tokenize doc))
                                (sum_list (map countSyllables (splitWords doc))))"
proof -
  have w1: "1 \<le> length (splitWords doc)" using assms(1) by (cases "splitWords doc") simp_all
  have s1: "1 \<le> length (tokenize doc)" using assms(2) by (cases "tokenize doc") simp_all
  have w2: "length (splitWords doc) < 2 ^ 53" using words_count_le[of doc] assms(3) by linarith
  have y2: "sum_list (map countSyllables (splitWords doc)) < 2 ^ 53"
    using syllables_count_le[of doc] assms(3) by linarith
  from calculateReadability_counts[of tokenize doc] fleschScore_double[OF w1 s1 w2 y2]
  show ?thesis by (simp add: fleschLevel_Num)
qed

theorem calculateReadability_flesch_witness:
  "splitWords ''The cat sat. It ran.'' \<noteq> []
   \<and> [''The cat sat.'', ''It ran.''] \<noteq> []
   \<and> length ''The cat sat. It ran.'' < 2 ^ 53
   \<and> score (calculateReadability (\<lambda>t. [''The cat sat.'', ''It ran.'']) ''The cat sat. It ran.'')
       = Num (of_int \<lfloor>flesch_double 5 2 5 + 1 / 2\<rfloor>)
   \<and> level (calculateReadability (\<lambda>t. [''The cat sat.'', ''It ran.'']) ''The cat sat. It ran.'')
       = spec_band (flesch_double 5 2 5)"
proof -
  have w: "splitWords ''The cat sat. It ran.'' = [''The'', ''cat'', ''sat.'', ''It'', ''ran.'']"
    by code_simp
  have y: "sum_list (map countSyllables [''The'', ''cat'', ''sat.'', ''It'', ''ran.'']) = 5"
    by code_simp
  have l5: "length [''The'', ''cat'', ''sat.'', ''It'', ''ran.''] = 5" by simp
  have l2: "length [''The cat sat.'', ''It ran.''] = 2" by simp
  have ne: "splitWords ''The cat sat. It ran.'' \<noteq> []" unfolding w by simp
  have ne2: "(\<lambda>t. [''The cat sat.'', ''It ran.'']) ''The cat sat. It ran.'' \<noteq> []" by simp
  have ln: "length ''The cat sat. It ran.'' < 2 ^ 53" by simp
  note r = calculateReadability_flesch[of "''The cat sat. It ran.''"
         "\<lambda>t. [''The cat sat.'', ''It ran.'']", OF ne ne2 ln, unfolded w y l5, simplified l2]
  from r ne ln show ?thesis by (simp only: l2 simp_thms list.distinct not_False_eq_True)
qed


section \<open>Properties of the chunker\<close>

lemma chunk_step_ok:
  "(\<And>s. P (closeChunk s 0)) \<Longrightarrow> chunks_ok P st \<Longrightarrow> chunks_ok P (chunk_step cs ov st s)"
  by (cases st) (simp add: chunks_ok_def chunk_step_def Let_def)

lemma chunk_loop_ok:
  "(\<And>s. P (closeChunk s 0)) \<Longrightarrow> chunks_ok P st \<Longrightarrow> chunks_ok P (chunk_loop cs ov ss st)"
  by (induction ss arbitrary: st) (simp_all add: chunk_step_ok)

lemma chunkText_all:
  assumes "\<And>s. P (closeChunk s 0)"
  shows "list_all P (chunkText tok doc cs ov)"
proof -
  have "chunks_ok P ([], [], 0)" by (simp add: chunks_ok_def)
  from chunk_loop_ok[of P, OF assms this, of cs ov "tok doc"]
  show ?thesis
    by (cases "chunk_loop cs ov (tok doc) ([], [], 0)")
       (simp add: chunkText_def chunks_ok_def assms)
qed

text \<open>
  The update of \<open>chunkStart\<close> reads \<open>currentChunk\<close> after it has been reassigned to
  \<open>overlapText + sentence\<close>, so the offset added is always \<open>0\<close>: every chunk of every
  text is recorded with start offset \<open>0\<close>.
\<close>

lemma chunkText_start_zero:
  "c \<in> set (chunkText tok doc cs ov) \<Longrightarrow> start c = 0"
  using chunkText_all[of "\<lambda>c. start c = 0" tok doc cs ov]
  by (simp add: closeChunk_def list_all_iff)

text \<open>
  C2. The chunks do not cover the text with advancing offsets. For the two-sentence text
  \<open>Aaaaaaa. Bbb.\<close> with \<open>chunkSize = 10\<close> and \<open>overlap = 2\<close> the first chunk is
  recorded as the span from 0 to 8 and the second, whose content is the overlap \<open>a.\<close>
  followed by \<open>Bbb.\<close>, as the span from 0 to 6: the start does not advance and the end
  moves backwards, so the recorded spans neither follow one another nor locate the
  second chunk's content in the text.
\<close>

theorem chunkText_offsets_do_not_advance:
  "map (\<lambda>c. (content c, start c, end' c))
       (chunkText (\<lambda>t. [''Aaaaaaa.'', ''Bbb.'']) ''Aaaaaaa. Bbb.'' 10 2)
   = [(''Aaaaaaa.'', 0, 8), (''a.Bbb.'', 0, 6)]"
  by code_simp

text \<open>
  C10. Every chunk record returned by \<open>chunkText\<close> satisfies
  \<open>end - start = length\<close>, for every text, tokenizer and pair of sizes.
\<close>

theorem chunkText_end_minus_start:
  "c \<in> set (chunkText tok doc cs ov) \<Longrightarrow> end' c - start c = int (length' c)"
  using chunkText_all[of "\<lambda>c. end' c - start c = int (length' c)" tok doc cs ov]
  by (simp add: closeChunk_def list_all_iff)

theorem chunkText_end_minus_start_witness:
  "\<lparr>content = ''a.Bbb.'', start = 0, end' = 6, length' = 6, sentences = 2\<rparr>
     \<in> set (chunkText (\<lambda>t. [''Aaaaaaa.'', ''Bbb.'']) ''Aaaaaaa. Bbb.'' 10 2)
   \<and> end' \<lparr>content = ''a.Bbb.'', start = 0, end' = 6, length' = 6, sentences = 2\<rparr>
       - start \<lparr>content = ''a.Bbb.'', start = 0, end' = 6, length' = 6, sentences = 2\<rparr>
     = int (length' \<lparr>content = ''a.Bbb.'', start = 0, end' = 6, length' = 6, sentences = 2\<rparr>)"
proof -
  have h: "\<lparr>content = ''a.Bbb.'', start = 0, end' = 6, length' = 6, sentences = 2\<rparr>
             \<in> set (chunkText (\<lambda>t. [''Aaaaaaa.'', ''Bbb.'']) ''Aaaaaaa. Bbb.'' 10 2)"
    by code_simp
  from chunkText_end_minus_start[OF h] h show ?thesis by simp
qed

section \<open>Properties of the in-process store\<close>

lemma slice0_length: "0 \<le> limit \<Longrightarrow> int (length (slice0 xs limit)) \<le> limit"
  by (simp add: slice0_def)

lemma set_slice0: "set (slice0 xs limit) \<subseteq> set xs"
  by (auto simp: slice0_def dest: in_set_takeD)

lemma set_insertResult: "set (insertResult a bs) = insert a (set bs)"
  by (induction bs) auto

lemma set_sortResults: "set (sortResults rs) = set rs"
  unfolding sortResults_def by (induction rs) (simp_all add: set_insertResult)

lemma scoreChunks_ids:
  "scoreChunks q cs = Inr rs \<Longrightarrow> list_all (\<lambda>c. document_id (metadata_s c) = d) cs
   \<Longrightarrow> list_all (\<lambda>r. documentId_r r = d) rs"
  by (induction cs arbitrary: rs) (auto split: option.splits sum.splits)

lemma scanStorage_ids:
  "storeConsistent store \<Longrightarrow> d \<noteq> [] \<Longrightarrow> scanStorage q (Some d) store = Inr rs
   \<Longrightarrow> list_all (\<lambda>r. documentId_r r = d) rs"
proof (induction store arbitrary: rs)
  case Nil
  then show ?case by simp
next
  case (Cons p store)
  obtain k cs where p: "p = (k, cs)" by (cases p)
  from Cons.prems(1) have cons: "storeConsistent store"
    and here: "list_all (\<lambda>c. document_id (metadata_s c) = k) cs"
    by (simp_all add: storeConsistent_def p)
  show ?case
  proof (cases "k = d")
    case False
    with Cons.prems p have "scanStorage q (Some d) store = Inr rs" by (simp add: truthy_def)
    from Cons.IH[OF cons Cons.prems(2) this] show ?thesis .
  next
    case True
    with Cons.prems p obtain h t where h: "scoreChunks q cs = Inr h"
      and t: "scanStorage q (Some d) store = Inr t" and rs: "rs = h @ t"
      by (auto simp: truthy_def split: sum.splits)
    from scoreChunks_ids[OF h] here True have "list_all (\<lambda>r. documentId_r r = d) h" by simp
    with Cons.IH[OF cons Cons.prems(2) t] rs show ?thesis by simp
  qed
qed

lemma search_results_from_scan:
  assumes "fst (searchSimilarChunks api svc store q documentId limit) = Inr rs"
  shows "\<exists>v found. fst (generateEmbeddings api svc q 0) = Inr v
           \<and> scanStorage v documentId store = Inr found
           \<and> rs = slice0 (sortResults found) limit"
  using assms
  by (auto simp: searchSimilarChunks_def searchChunksFallback_def split: prod.splits sum.splits)

lemma search_limit:
  assumes "fst (searchSimilarChunks api svc store q documentId limit) = Inr rs" and "0 \<le> limit"
  shows "int (length rs) \<le> limit"
  using search_results_from_scan[OF assms(1)] slice0_length[OF assms(2)] by auto

lemma search_scope:
  assumes "fst (searchSimilarChunks api svc store q (Some d) limit) = Inr rs"
      and "storeConsistent store" and "d \<noteq> []"
  shows "\<forall>r \<in> set rs. documentId_r r = d"
proof -
  from search_results_from_scan[OF assms(1)] obtain v found where
    f: "scanStorage v (Some d) store = Inr found" and rs: "rs = slice0 (sortResults found) limit"
    by blast
  from scanStorage_ids[OF assms(2,3) f] have "\<forall>r \<in> set found. documentId_r r = d"
    by (simp add: list_all_iff)
  with rs set_slice0[of "sortResults found" limit] show ?thesis
    by (auto simp: set_sortResults)
qed

text \<open>On doubles the comparator orders two records as their scores are ordered.\<close>

lemma sortsAfter_double:
  assumes "score_r a = Num x" and "score_r b = Num y" and "fl x = x" and "fl y = y"
  shows "sortsAfter a b = (x < y)"
proof (cases "x < y")
  case True
  then have "0 < fl (y - x)" using fl_sub_pos[OF assms(3,4)] by simp
  with True show ?thesis by (simp add: sortsAfter_def assms(1,2) dbl_def inf_of_def)
next
  case False
  then have "fl (y - x) \<le> 0" by (intro fl_nonpos) simp
  with False show ?thesis by (auto simp: sortsAfter_def assms(1,2) dbl_def inf_of_def)
qed

lemma insertResult_sorted:
  "doubleScores (a # bs) \<Longrightarrow> sorted_wrt js_ge (map score_r bs)
   \<Longrightarrow> sorted_wrt js_ge (map score_r (insertResult a bs))"
proof (induction bs)
  case Nil
  then show ?case by simp
next
  case (Cons b bs)
  from Cons.prems(1) obtain x y where x: "score_r a = Num x" "fl x = x"
    and y: "score_r b = Num y" "fl y = y"
    by (auto simp: doubleScores_def split: jsnum.splits)
  from Cons.prems(1) have fin: "doubleScores (a # bs)" "doubleScores bs"
    by (simp_all add: doubleScores_def)
  note cmp = sortsAfter_double[OF x(1) y(1) x(2) y(2)]
  show ?case
  proof (cases "x < y")
    case True
    have "sorted_wrt js_ge (map score_r (insertResult a bs))"
      using Cons.IH[OF fin(1)] Cons.prems(2) by simp
    moreover have "\<forall>r \<in> set (insertResult a bs). js_ge (score_r b) (score_r r)"
      using Cons.prems(2) True x y by (auto simp: set_insertResult)
    ultimately show ?thesis using True cmp by simp
  next
    case False
    have "\<forall>r \<in> set bs. js_ge (score_r a) (score_r r)"
    proof
      fix r assume r: "r \<in> set bs"
      with fin(2) obtain z where z: "score_r r = Num z"
        by (cases "score_r r") (auto simp: doubleScores_def list_all_iff)
      from Cons.prems(2) r have "js_ge (score_r b) (score_r r)" by auto
      with x y z False show "js_ge (score_r a) (score_r r)" by simp
    qed
    with False x y cmp Cons.prems(2) show ?thesis by simp
  qed
qed

lemma doubleScores_insert: "doubleScores (insertResult a bs) = doubleScores (a # bs)"
  by (auto simp: doubleScores_def list_all_iff set_insertResult)

lemma sortResults_sorted:
  "doubleScores rs \<Longrightarrow> sorted_wrt js_ge (map score_r (sortResults rs))
                         \<and> doubleScores (sortResults rs)"
  unfolding sortResults_def
proof (induction rs)
  case Nil
  then show ?case by (simp add: doubleScores_def)
next
  case (Cons a rs)
  then have ih: "sorted_wrt js_ge (map score_r (foldr insertResult rs []))"
    "doubleScores (foldr insertResult rs [])"
    by (simp_all add: doubleScores_def)
  from ih(2) Cons.prems have "doubleScores (a # foldr insertResult rs [])"
    by (simp add: doubleScores_def)
  from insertResult_sorted[OF this ih(1)] this show ?case
    by (simp add: doubleScores_insert)
qed

lemma search_sorted:
  assumes "fst (searchSimilarChunks api svc store q documentId limit) = Inr rs"
      and "fst (generateEmbeddings api svc q 0) = Inr v"
      and "scanStorage v documentId store = Inr found" and "doubleScores found"
  shows "nonIncreasing (map score_r rs)"
proof -
  from search_results_from_scan[OF assms(1)] assms(2,3)
  have rs: "rs = slice0 (sortResults found) limit" by auto
  from sortResults_sorted[OF assms(4)] have "sorted_wrt js_ge (map score_r (sortResults found))" ..
  then show ?thesis unfolding rs nonIncreasing_def slice0_def
    by (auto simp: take_map[symmetric] sorted_wrt_take)
qed

lemma update_consistent:
  "storeConsistent store \<Longrightarrow> list_all (\<lambda>c. document_id (metadata_s c) = d) cs
   \<Longrightarrow> storeConsistent (AList.update d cs store)"
  by (induction store) (auto simp: storeConsistent_def)

lemma map_of_consistent:
  "storeConsistent store \<Longrightarrow> map_of store d = Some old
   \<Longrightarrow> list_all (\<lambda>c. document_id (metadata_s c) = d) old"
  by (induction store) (auto simp: storeConsistent_def split: if_splits)

lemma storeChunksFallback_consistent:
  "storeConsistent store \<Longrightarrow> storeConsistent (storeChunksFallback store d cs)"
proof -
  assume c: "storeConsistent store"
  have new: "list_all (\<lambda>c. document_id (metadata_s c) = d)
     (map (\<lambda>(index, c). \<lparr>content_s = content_p c, embedding_s = embedding c,
             metadata_s = \<lparr>document_id = d, chunk_index = index, chunk_metadata = metadata c\<rparr>\<rparr>)
        (enumerate 0 cs))"
    by (simp add: list_all_iff case_prod_unfold)
  show ?thesis
  proof (cases "map_of store d")
    case None
    have c1: "storeConsistent (AList.update d [] store)" using c by (simp add: update_consistent)
    have "map_of (AList.update d [] store) d = Some []" by (simp add: update_conv')
    with None new c1 c show ?thesis
      by (simp add: storeChunksFallback_def Let_def update_consistent)
  next
    case (Some old)
    from map_of_consistent[OF c Some] new Some c show ?thesis
      by (simp add: storeChunksFallback_def Let_def update_consistent)
  qed
qed

lemma deleteDocumentChunks_consistent:
  "storeConsistent store \<Longrightarrow> storeConsistent (deleteDocumentChunks store d)"
  by (induction store) (auto simp: storeConsistent_def deleteDocumentChunks_def)

lemma scan_deleted:
  "d \<noteq> [] \<Longrightarrow> scanStorage q (Some d) (AList.delete d store) = Inr []"
  by (induction store) (auto simp: truthy_def)

lemma delete_absent: "d \<notin> fst ` set store \<Longrightarrow> AList.delete d store = store"
  by (induction store) auto

lemma search_after_delete:
  assumes "d \<noteq> []"
  shows "searchSimilarChunks api svc (deleteDocumentChunks store d) q (Some d) limit
           = (case generateEmbeddings api svc q 0 of
                (Inl e, svc1) \<Rightarrow> (Inl e, svc1)
              | (Inr v, svc1) \<Rightarrow> (Inr [], svc1))"
  using assms
  by (simp add: searchSimilarChunks_def searchChunksFallback_def deleteDocumentChunks_def
        scan_deleted slice0_def sortResults_def split: prod.splits sum.splits)

lemma ge_throttled: "generateEmbeddings throttled threeKeys ''q'' 0
   = (Inr [1, 0], \<lparr>geminiApiKeys = [''key-1'', ''key-2'', ''key-3''], currentKeyIndex = Some 2,
        requests = [(EmbedContent, Some ''key-1''), (EmbedContent, Some ''key-2''),
                    (EmbedContent, Some ''key-3'')]\<rparr>)"
  by code_simp

lemma cos_zero: "cosineSimilarity [1, 0] [0, 0] = NaN"
  by (simp add: cosineSimilarity_def inf_of_def)

lemma cos_one: "cosineSimilarity [1, 0] [1, 0] = Num 1"
  by (simp add: cosineSimilarity_def)

text \<open>
  What holds of every search in fallback mode that returns: with a non-negative limit at
  most \<open>limit\<close> records come back (\<open>search_limit\<close>); with a non-empty document id and a
  store filled by \<open>storeChunksFallback\<close> every record carries that id (\<open>search_scope\<close>);
  and the records are in non-increasing order of score when every score is a double,
  none of them \<open>NaN\<close> (\<open>search_sorted\<close>).

  C6. The order fails as soon as a score is \<open>NaN\<close>, which \<open>cosineSimilarity\<close> returns for
  a stored all-zero embedding. With the records \<open>[0, 0]\<close> and \<open>[1, 0]\<close> stored for one
  document and the query embedded as \<open>[1, 0]\<close>, the scores come back in the order
  \<open>NaN, 1\<close>, which is not non-increasing; no order of these two scores is, since every
  comparison with \<open>NaN\<close> is false.
\<close>

theorem search_order_with_zero_vector:
  "map_sum id (map score_r)
     (fst (searchSimilarChunks throttled threeKeys zeroVectorStore ''q'' (Some ''doc-1'') 5))
     = Inr [NaN, Num 1]
   \<and> \<not> nonIncreasing [NaN, Num 1] \<and> \<not> nonIncreasing [Num 1, NaN]"
  by (simp add: searchSimilarChunks_def searchChunksFallback_def ge_throttled zeroVectorStore_def
        storedAt_def truthy_def cos_zero cos_one sortResults_def sortsAfter_def slice0_def
        nonIncreasing_def)

lemma scan_delete_empty:
  "\<forall>cs. (d, cs) \<in> set store \<longrightarrow> cs = [] \<Longrightarrow>
   scanStorage v docId (AList.delete d store) = scanStorage v docId store"
proof (induction store)
  case Nil
  show ?case by simp
next
  case (Cons p store)
  obtain k cs where p: "p = (k, cs)" by (cases p)
  from Cons.prems have rest: "\<forall>cs. (d, cs) \<in> set store \<longrightarrow> cs = []" by auto
  note ih = Cons.IH[OF rest]
  show ?case
  proof (cases "k = d")
    case True
    with Cons.prems p have "cs = []" by auto
    with True p ih show ?thesis by (simp split: sum.splits)
  next
    case False
    with p ih show ?thesis by (simp split: sum.splits)
  qed
qed

lemma recordsOf_empty:
  "recordsOf store d = [] \<Longrightarrow> \<forall>cs. (d, cs) \<in> set store \<longrightarrow> cs = []"
  by (induction store) (auto simp: recordsOf_def split: if_splits)

lemma search_delete_empty:
  "\<forall>cs. (d, cs) \<in> set store \<longrightarrow> cs = [] \<Longrightarrow>
   searchSimilarChunks api svc (deleteDocumentChunks store d) q docId limit
     = searchSimilarChunks api svc store q docId limit"
  by (simp add: searchSimilarChunks_def searchChunksFallback_def deleteDocumentChunks_def
        scan_delete_empty split: prod.splits sum.splits)

text \<open>
  C7. In fallback mode, for every store and every non-empty document id: after
  \<open>deleteDocumentChunks\<close> a search restricted to that id returns the empty list whenever
  the query can be embedded and never returns a record; deleting an id that has no entry
  leaves the store as it was; and deleting an id that has no record, be it under an empty
  entry, changes the result of no search.
\<close>

theorem deleted_document_not_found:
  assumes "documentId \<noteq> []"
  shows "(\<forall>v. fst (generateEmbeddings api svc query 0) = Inr v
            \<longrightarrow> fst (searchSimilarChunks api svc (deleteDocumentChunks store documentId)
                       query (Some documentId) limit) = Inr [])
       \<and> (\<forall>results. fst (searchSimilarChunks api svc (deleteDocumentChunks store documentId)
                           query (Some documentId) limit) = Inr results
            \<longrightarrow> results = [])
       \<and> (documentId \<notin> fst ` set store \<longrightarrow> deleteDocumentChunks store documentId = store)
       \<and> (recordsOf store documentId = []
            \<longrightarrow> searchSimilarChunks api svc (deleteDocumentChunks store documentId) query anyId limit
                  = searchSimilarChunks api svc store query anyId limit)"
proof (intro conjI allI impI)
  obtain res svc1 where g: "generateEmbeddings api svc query 0 = (res, svc1)"
    by (cases "generateEmbeddings api svc query 0")
  { fix v assume "fst (generateEmbeddings api svc query 0) = Inr v"
    with g show "fst (searchSimilarChunks api svc (deleteDocumentChunks store documentId)
                       query (Some documentId) limit) = Inr []"
      by (simp add: search_after_delete[OF assms]) }
  { fix results
    assume "fst (searchSimilarChunks api svc (deleteDocumentChunks store documentId)
                           query (Some documentId) limit) = Inr results"
    with g show "results = []"
      by (cases res) (simp_all add: search_after_delete[OF assms]) }
  { assume "documentId \<notin> fst ` set store"
    then show "deleteDocumentChunks store documentId = store"
      by (simp add: deleteDocumentChunks_def delete_absent) }
  { assume "recordsOf store documentId = []"
    then have "\<forall>cs. (documentId, cs) \<in> set store \<longrightarrow> cs = []" by (rule recordsOf_empty)
    then show "searchSimilarChunks api svc (deleteDocumentChunks store documentId) query anyId limit
                  = searchSimilarChunks api svc store query anyId limit"
      by (rule search_delete_empty) }
qed

theorem deleted_document_not_found_witness:
  "''doc-1'' \<noteq> []
   \<and> fst (generateEmbeddings throttled threeKeys ''q'' 0) = Inr [1, 0]
   \<and> fst (searchSimilarChunks throttled threeKeys (deleteDocumentChunks twoDocs ''doc-1'')
              ''q'' (Some ''doc-1'') 5) = Inr []
   \<and> ''doc-4'' \<notin> fst ` set twoDocs
   \<and> deleteDocumentChunks twoDocs ''doc-4'' = twoDocs
   \<and> recordsOf twoDocs ''doc-3'' = []
   \<and> searchSimilarChunks throttled threeKeys (deleteDocumentChunks twoDocs ''doc-3'') ''q'' None 5
       = searchSimilarChunks throttled threeKeys twoDocs ''q'' None 5"
proof -
  have ne: "''doc-1'' \<noteq> []" by simp
  have ne3: "''doc-3'' \<noteq> []" by simp
  have ne4: "''doc-4'' \<noteq> []" by simp
  have g: "fst (generateEmbeddings throttled threeKeys ''q'' 0) = Inr [1, 0]"
    by (simp add: ge_throttled)
  have absent: "''doc-4'' \<notin> fst ` set twoDocs" by (simp add: twoDocs_def)
  have empty: "recordsOf twoDocs ''doc-3'' = []" by (simp add: twoDocs_def recordsOf_def)
  from deleted_document_not_found[OF ne, of throttled threeKeys "''q''" twoDocs 5] g
  have a: "fst (searchSimilarChunks throttled threeKeys (deleteDocumentChunks twoDocs ''doc-1'')
              ''q'' (Some ''doc-1'') 5) = Inr []" by blast
  from deleted_document_not_found[OF ne4, of throttled threeKeys "''q''" twoDocs 5] absent
  have b: "deleteDocumentChunks twoDocs ''doc-4'' = twoDocs" by blast
  from deleted_document_not_found[OF ne3, of throttled threeKeys "''q''" twoDocs 5 None] empty
  have c: "searchSimilarChunks throttled threeKeys (deleteDocumentChunks twoDocs ''doc-3'') ''q'' None 5
             = searchSimilarChunks throttled threeKeys twoDocs ''q'' None 5" by blast
  from ne g a absent b empty c show ?thesis by (intro conjI)
qed

section \<open>Properties of the pipeline\<close>

lemma dropWhile_rev_trim:
  "dropWhile P (rev (dropWhile P (rev (dropWhile P s)))) = rev (dropWhile P (rev (dropWhile P s)))"
proof -
  let ?a = "dropWhile P s"
  let ?b = "dropWhile P (rev ?a)"
  show ?thesis
  proof (cases "?b = []")
    case True
    show ?thesis unfolding True by simp
  next
    case False
    have split: "rev ?a = takeWhile P (rev ?a) @ ?b" by simp
    have ane: "?a \<noteq> []"
    proof
      assume "?a = []"
      then have "?b = []" by (simp only: rev.simps dropWhile.simps)
      with False show False ..
    qed
    have "last ?b = last (rev ?a)"
      using False last_appendR[of ?b "takeWhile P (rev ?a)"] split by metis
    also have "\<dots> = hd ?a" using ane by (simp add: last_rev)
    finally have "last ?b = hd ?a" .
    moreover have "\<not> P (hd ?a)" using ane by (rule hd_dropWhile)
    ultimately have "\<not> P (hd (rev ?b))" using False by (simp add: hd_rev)
    then show ?thesis by (simp add: dropWhile_eq_self_iff)
  qed
qed

lemma trim_trim: "trim (trim s) = trim s"
  by (simp add: trim_def dropWhile_rev_trim)

lemma ge_never_resolved:
  "\<forall>n key t v. embedContent api n key t \<noteq> Resolved v \<Longrightarrow>
   \<exists>e svc1. generateEmbeddings api svc q r = (Inl e, svc1)"
proof (induction api svc q r rule: generateEmbeddings.induct)
  case (1 api svc q r)
  show ?case
  proof (cases "embedContent api (length (requests svc)) (getCurrentApiKey svc) q")
    case (Resolved v)
    with "1.prems" show ?thesis by blast
  next
    case Unusable
    then show ?thesis by (subst generateEmbeddings.simps) simp
  next
    case (Rejected st)
    show ?thesis
    proof (cases "st = Some 429 \<and> int r < int (length (geminiApiKeys svc)) - 1")
      case True
      from "1.IH"[OF Rejected True "1.prems"] Rejected True show ?thesis
        by (subst generateEmbeddings.simps) simp
    next
      case False
      with Rejected show ?thesis by (subst generateEmbeddings.simps) auto
    qed
  qed
qed


lemma extractWith_nonblank: "extractWith p f = Inr t \<Longrightarrow> t \<noteq> [] \<and> trim t \<noteq> []"
  by (auto simp: extractWith_def trim_trim split: option.splits if_splits)

lemma extractText_nonblank:
  "extractText env filePath fileType = Inr t \<Longrightarrow> t \<noteq> [] \<and> trim t \<noteq> []"
  unfolding extractText_def extractFromPDF_def extractFromTXT_def extractFromDOCX_def
    extractFromImage_def
  by (simp split: sum.splits if_splits add: extractWith_nonblank)

lemma processChunk_free:
  assumes "\<forall>n key t v. embedContent api n key t \<noteq> Resolved v"
  shows "\<exists>svc1. processChunk lib api svc i c
           = (pushChunk i c None (extractKeywords lib (content c) 10)
                (generateSummary lib (content c) 3), svc1)"
proof -
  from ge_never_resolved[OF assms, of svc "content c" 0]
  obtain e svc1 where "generateEmbeddings api svc (content c) 0 = (Inl e, svc1)" by blast
  then show ?thesis by (simp add: processChunk_def)
qed

lemma processChunks_free:
  assumes "\<forall>n key t v. embedContent api n key t \<noteq> Resolved v"
  shows "\<exists>svc1. processChunks lib api svc i cs
           = (map (\<lambda>(j, c). pushChunk j c None (extractKeywords lib (content c) 10)
                                (generateSummary lib (content c) 3)) (enumerate i cs), svc1)"
proof (induction cs arbitrary: svc i)
  case Nil
  show ?case by simp
next
  case (Cons c cs)
  from processChunk_free[OF assms, of lib svc i c] obtain svc1 where
    a: "processChunk lib api svc i c
           = (pushChunk i c None (extractKeywords lib (content c) 10)
                (generateSummary lib (content c) 3), svc1)" by blast
  from Cons.IH[of svc1 "Suc i"] obtain svc2 where
    b: "processChunks lib api svc1 (Suc i) cs
           = (map (\<lambda>(j, c). pushChunk j c None (extractKeywords lib (content c) 10)
                                (generateSummary lib (content c) 3)) (enumerate (Suc i) cs), svc2)"
    by blast
  show ?case by (simp add: a b)
qed

lemma processDocument_returns:
  assumes "extractText env filePath fileType = Inr t"
  shows "\<exists>r svc1. processDocument env lib api svc documentId filePath fileType = (Inr r, svc1)
            \<and> extractedText r = t
            \<and> chunks r = fst (processChunks lib api svc 0 (chunkText (sentenceTokenize lib) t 1000 200))
            \<and> processingMethod_d (metadata_d r)
                = (if list_ex (\<lambda>c. processingMethod (metadata c) = ''gemini'') (chunks r)
                   then ''gemini'' else ''free'')"
proof -
  let ?cs = "chunkText (sentenceTokenize lib) t 1000 200"
  obtain pcs svc1 where a: "processChunks lib api svc 0 ?cs = (pcs, svc1)"
    by (cases "processChunks lib api svc 0 ?cs")
  obtain subj svc2 where b: "extractSubjectWithGemini api svc1 t = (subj, svc2)"
    by (cases "extractSubjectWithGemini api svc1 t")
  obtain kws svc3 where c: "extractKeywordsWithGemini lib api svc2 t 20 = (kws, svc3)"
    by (cases "extractKeywordsWithGemini lib api svc2 t 20")
  obtain summ svc4 where d: "generateSummaryWithGemini lib api svc3 t 5 = (summ, svc4)"
    by (cases "generateSummaryWithGemini lib api svc3 t 5")
  from extractText_nonblank[OF assms] show ?thesis
    by (simp add: processDocument_def assms a b c d)
qed


lemma map_enumerate_snd: "map (\<lambda>(j, c). f c) (enumerate i cs) = map f cs"
  by (induction cs arbitrary: i) simp_all

lemma map_enumerate_fst: "map (\<lambda>(j, c). g j) (enumerate i cs) = map g [i..<i + length cs]"
  by (induction cs arbitrary: i) (simp_all add: upt_rec)

text \<open>
  C3. For every document whose text extraction succeeds, if no embedding request is ever
  answered with a vector, \<open>processDocument\<close> returns: its chunks are those of \<open>chunkText\<close>,
  in order and all of them, each with no embedding and with processing method
  \<open>free\<close>, and the document's processing method is \<open>free\<close>.
\<close>

theorem processDocument_degraded:
  assumes "extractText env filePath fileType = Inr t"
      and "\<forall>n key q v. embedContent api n key q \<noteq> Resolved v"
  shows "\<exists>r svc1. processDocument env lib api svc documentId filePath fileType = (Inr r, svc1)
           \<and> map content_p (chunks r) = map content (chunkText (sentenceTokenize lib) t 1000 200)
           \<and> map (\<lambda>c. chunkIndex (metadata c)) (chunks r)
               = [0..<length (chunkText (sentenceTokenize lib) t 1000 200)]
           \<and> (\<forall>c \<in> set (chunks r). embedding c = None \<and> processingMethod (metadata c) = ''free'')
           \<and> processingMethod_d (metadata_d r) = ''free''"
proof -
  let ?cs = "chunkText (sentenceTokenize lib) t 1000 200"
  let ?f = "\<lambda>(j, c). pushChunk j c None (extractKeywords lib (content c) 10)
                                (generateSummary lib (content c) 3)"
  from processDocument_returns[OF assms(1), of lib api svc documentId]
  obtain r svc1 where r: "processDocument env lib api svc documentId filePath fileType = (Inr r, svc1)"
    and ch: "chunks r = fst (processChunks lib api svc 0 ?cs)"
    and pm: "processingMethod_d (metadata_d r)
                = (if list_ex (\<lambda>c. processingMethod (metadata c) = ''gemini'') (chunks r)
                   then ''gemini'' else ''free'')"
    by blast
  from processChunks_free[OF assms(2), of lib svc 0 ?cs] ch
  have eq: "chunks r = map ?f (enumerate 0 ?cs)" by auto
  have a: "map content_p (chunks r) = map content ?cs"
    unfolding eq by (simp add: pushChunk_def case_prod_unfold map_enumerate_snd[unfolded case_prod_unfold] o_def)
  have b: "map (\<lambda>c. chunkIndex (metadata c)) (chunks r) = [0..<length ?cs]"
    unfolding eq using map_enumerate_fst[of "\<lambda>j. j" 0 ?cs]
    by (simp add: pushChunk_def case_prod_unfold o_def)
  have c: "\<forall>c \<in> set (chunks r). embedding c = None \<and> processingMethod (metadata c) = ''free''"
    unfolding eq by (auto simp: pushChunk_def)
  then have "\<not> list_ex (\<lambda>c. processingMethod (metadata c) = ''gemini'') (chunks r)"
    by (auto simp: list_ex_iff)
  with pm have d: "processingMethod_d (metadata_d r) = ''free''" by simp
  from r a b c d show ?thesis by blast
qed

theorem processDocument_degraded_witness:
  "extractText txtParsers ''uploads/notes.txt'' ''txt'' = Inr ''Hello world. Bye now.''
   \<and> (\<forall>n key q v. embedContent down n key q \<noteq> Resolved v)
   \<and> length (chunkText (sentenceTokenize sampleLibrary) ''Hello world. Bye now.'' 1000 200) = 1
   \<and> (\<exists>r svc1. processDocument txtParsers sampleLibrary down threeKeys ''doc-1''
                     ''uploads/notes.txt'' ''txt'' = (Inr r, svc1)
           \<and> map content_p (chunks r)
               = map content (chunkText (sentenceTokenize sampleLibrary)
                                ''Hello world. Bye now.'' 1000 200)
           \<and> map (\<lambda>c. chunkIndex (metadata c)) (chunks r)
               = [0..<length (chunkText (sentenceTokenize sampleLibrary)
                                ''Hello world. Bye now.'' 1000 200)]
           \<and> (\<forall>c \<in> set (chunks r). embedding c = None \<and> processingMethod (metadata c) = ''free'')
           \<and> processingMethod_d (metadata_d r) = ''free'')"
proof -
  have h1: "extractText txtParsers ''uploads/notes.txt'' ''txt'' = Inr ''Hello world. Bye now.''"
    by code_simp
  have h2: "\<forall>n key q v. embedContent down n key q \<noteq> Resolved v"
    by (simp add: down_def)
  have h3: "length (chunkText (sentenceTokenize sampleLibrary) ''Hello world. Bye now.'' 1000 200) = 1"
    by code_simp
  from processDocument_degraded[OF h1 h2, of sampleLibrary threeKeys "''doc-1''"] h1 h2 h3
  show ?thesis by (intro conjI)
qed

text \<open>
  C4. Whatever the remote service and the analyzers do, \<open>processDocument\<close> raises exactly
  when \<open>extractText\<close> raises or the extracted text is blank.
\<close>

theorem processDocument_raises_iff:
  "(\<exists>e. fst (processDocument env lib api svc documentId filePath fileType) = Inl e)
     \<longleftrightarrow> ((\<exists>e. extractText env filePath fileType = Inl e)
          \<or> (\<exists>t. extractText env filePath fileType = Inr t \<and> (t = [] \<or> trim t = [])))"
proof (cases "extractText env filePath fileType")
  case (Inl e)
  then show ?thesis by (simp add: processDocument_def)
next
  case (Inr t)
  from processDocument_returns[OF Inr, of lib api svc documentId] extractText_nonblank[OF Inr] Inr
  show ?thesis by auto
qed


theorem processDocument_raises_iff_witness:
  "(\<exists>e. extractText noParsers ''uploads/doc-1.pdf'' ''pdf'' = Inl e)
   \<and> (\<exists>e. fst (processDocument noParsers sampleLibrary throttled threeKeys ''doc-1''
                    ''uploads/doc-1.pdf'' ''pdf'') = Inl e)
   \<and> \<not> (\<exists>e. extractText txtParsers ''uploads/notes.txt'' ''txt'' = Inl e)
   \<and> \<not> (\<exists>t. extractText txtParsers ''uploads/notes.txt'' ''txt'' = Inr t \<and> (t = [] \<or> trim t = []))
   \<and> \<not> (\<exists>e. fst (processDocument txtParsers sampleLibrary down threeKeys ''doc-1''
                      ''uploads/notes.txt'' ''txt'') = Inl e)"
proof -
  have f: "extractText noParsers ''uploads/doc-1.pdf'' ''pdf''
             = Inl (Error ''Failed to extract text from pdf file'')"
    by code_simp
  then have a: "\<exists>e. extractText noParsers ''uploads/doc-1.pdf'' ''pdf'' = Inl e" by blast
  have b: "\<exists>e. fst (processDocument noParsers sampleLibrary throttled threeKeys ''doc-1''
                    ''uploads/doc-1.pdf'' ''pdf'') = Inl e"
    using processDocument_raises_iff[of noParsers sampleLibrary throttled threeKeys "''doc-1''"
            "''uploads/doc-1.pdf''" "''pdf''"] a by blast
  have g: "extractText txtParsers ''uploads/notes.txt'' ''txt'' = Inr ''Hello world. Bye now.''"
    by code_simp
  have t: "trim ''Hello world. Bye now.'' = ''Hello world. Bye now.''" by code_simp
  have c: "\<not> (\<exists>e. extractText txtParsers ''uploads/notes.txt'' ''txt'' = Inl e)"
    by (simp add: g)
  have d: "\<not> (\<exists>t. extractText txtParsers ''uploads/notes.txt'' ''txt'' = Inr t
                    \<and> (t = [] \<or> trim t = []))"
    by (simp add: g t)
  have e: "\<not> (\<exists>e. fst (processDocument txtParsers sampleLibrary down threeKeys ''doc-1''
                      ''uploads/notes.txt'' ''txt'') = Inl e)"
    using processDocument_raises_iff[of txtParsers sampleLibrary down threeKeys "''doc-1''"
            "''uploads/notes.txt''" "''txt''"] c d by blast
  from a b c d e show ?thesis by (intro conjI)
qed

end
